theory Spec2Isabelle
  imports Complex_Main "HOL-Library.Product_Lexorder"
begin

section \<open>Column types\<close>

text \<open>
  The storage layer is a set of PostgreSQL migrations. A table is modelled as the list of
  its rows in scan order, a nullable column as an \<open>option\<close>, a \<open>UUID\<close> as a natural
  number, a \<open>TIMESTAMPTZ\<close> as an integer count of microseconds, \<open>TEXT\<close> and \<open>JSONB\<close> as
  strings. \<open>FLOAT\<close> columns and the components of a \<open>vector(1536)\<close> are modelled by real
  numbers: rounding and NaN are outside the model.
\<close>

type_synonym uuid = nat
type_synonym timestamptz = int
type_synonym jsonb = string
type_synonym vector = "real list"

datatype sql_error = UniqueViolation | ForeignKeyViolation | LimitNegative

section \<open>Table documents\<close>

record document =
  d_id :: uuid
  d_user_id :: string
  d_source :: string
  d_source_id :: string
  d_doc_type :: string
  d_subject :: "string option"
  d_content :: string
  d_content_preview :: "string option"
  d_metadata :: "jsonb option"
  d_source_created_at :: "timestamptz option"
  d_created_at :: "timestamptz option"
  d_updated_at :: "timestamptz option"
  d_vector_embedding :: "vector option"

text \<open>The columns of \<open>CONSTRAINT unique_source_document UNIQUE(source, source_id, user_id)\<close>.\<close>

definition unique_source_document :: "document \<Rightarrow> string \<times> string \<times> string" where
  "unique_source_document d = (d_source d, d_source_id d, d_user_id d)"

section \<open>Cosine distance\<close>

text \<open>
  The operator \<open><=>\<close> belongs to the pgvector extension, not to the repository. On two
  vectors of the same dimension and of non-zero norm it is the cosine distance, and that is
  how it is modelled, over the reals. On vectors of different dimensions pgvector raises
  an error, and on a vector of norm zero it yields NaN; \<open>dot\<close> and \<open>cosine_distance\<close>
  do not model either, and every statement about the search below is restricted to
  \<open>well_formed_search\<close>. The operator is strict: it yields NULL as soon as one operand is
  NULL.
\<close>

fun dot :: "vector \<Rightarrow> vector \<Rightarrow> real" where
  "dot (x # xs) (y # ys) = x * y + dot xs ys"
| "dot _ _ = 0"

definition cosine_distance :: "vector \<Rightarrow> vector \<Rightarrow> real" where
  "cosine_distance a b = 1 - dot a b / sqrt (dot a a * dot b b)"

fun cosine_distance_op :: "vector option \<Rightarrow> vector option \<Rightarrow> real option" where
  "cosine_distance_op (Some a) (Some b) = Some (cosine_distance a b)"
| "cosine_distance_op _ _ = None"

text \<open>The dimension of \<open>vector_embedding vector(1536)\<close>.\<close>

definition embedding_dim :: nat where
  "embedding_dim = 1536"

text \<open>
  The vectors on which the model of \<open><=>\<close> is the operator: of the column's dimension and
  of non-zero norm. A search is well formed when the query vector and every stored
  embedding are such vectors; NULL embeddings are allowed.
\<close>

definition well_formed_vector :: "vector \<Rightarrow> bool" where
  "well_formed_vector v \<longleftrightarrow> length v = embedding_dim \<and> dot v v \<noteq> 0"

definition well_formed_search :: "vector \<Rightarrow> document list \<Rightarrow> bool" where
  "well_formed_search query_embedding documents \<longleftrightarrow>
     well_formed_vector query_embedding \<and>
     list_all (\<lambda>d. case d_vector_embedding d of None \<Rightarrow> True | Some e \<Rightarrow> well_formed_vector e)
       documents"

section \<open>Function match\_documents\<close>

record match_row =
  m_id :: uuid
  m_user_id :: string
  m_source :: string
  m_source_id :: string
  m_doc_type :: string
  m_subject :: "string option"
  m_content :: string
  m_content_preview :: "string option"
  m_metadata :: "jsonb option"
  m_source_created_at :: "timestamptz option"
  m_created_at :: "timestamptz option"
  m_similarity :: "real option"

text \<open>The select list expression \<open>1 - (d.vector_embedding <=> query_embedding)\<close>.\<close>

definition similarity :: "vector \<Rightarrow> document \<Rightarrow> real option" where
  "similarity query_embedding d =
     map_option (\<lambda>x. 1 - x) (cosine_distance_op (d_vector_embedding d) (Some query_embedding))"

definition select_list :: "vector \<Rightarrow> document \<Rightarrow> match_row" where
  "select_list query_embedding d =
     \<lparr> m_id = d_id d, m_user_id = d_user_id d, m_source = d_source d,
       m_source_id = d_source_id d, m_doc_type = d_doc_type d, m_subject = d_subject d,
       m_content = d_content d, m_content_preview = d_content_preview d,
       m_metadata = d_metadata d, m_source_created_at = d_source_created_at d,
       m_created_at = d_created_at d, m_similarity = similarity query_embedding d \<rparr>"

text \<open>
  The \<open>WHERE\<close> clause. A comparison with NULL is NULL, and \<open>WHERE\<close> keeps a row only when
  the condition is true, so a row whose similarity is NULL is dropped.
\<close>

definition where_clause ::
  "vector \<Rightarrow> real \<Rightarrow> string option \<Rightarrow> string option \<Rightarrow> document \<Rightarrow> bool" where
  "where_clause query_embedding match_threshold filter_user_id filter_source d \<longleftrightarrow>
     (filter_user_id = None \<or> Some (d_user_id d) = filter_user_id) \<and>
     (filter_source = None \<or> Some (d_source d) = filter_source) \<and>
     (case similarity query_embedding d of None \<Rightarrow> False | Some s \<Rightarrow> s > match_threshold)"

text \<open>
  The sort key of \<open>ORDER BY d.vector_embedding <=> query_embedding\<close>: ascending, NULLs
  last. The first component says whether the distance is NULL.
\<close>

definition order_by :: "vector \<Rightarrow> document \<Rightarrow> bool \<times> real" where
  "order_by query_embedding d =
     (case cosine_distance_op (d_vector_embedding d) (Some query_embedding) of
        None \<Rightarrow> (True, 0)
      | Some x \<Rightarrow> (False, x))"

text \<open>
  \<open>ORDER BY\<close> fixes the order of the selected rows only up to rows with equal keys, and
  which rows reach the sort depends on the plan, which the SQL text does not choose. With
  a sequential scan every selected row is sorted. With a scan of the HNSW index on
  \<open>vector_embedding\<close> the search is approximate: the index delivers rows in the order of
  the key but may miss rows. The model therefore lists every sequence of rows the executor
  may hand to \<open>LIMIT\<close>: each ordering of the selected rows (sequential scan), or of any
  part of them (index scan), that is sorted by the key.
\<close>

datatype plan = SeqScan | IndexScan

fun inserts :: "'a \<Rightarrow> 'a list \<Rightarrow> 'a list list" where
  "inserts x [] = [[x]]"
| "inserts x (y # ys) = (x # y # ys) # map ((#) y) (inserts x ys)"

fun orderings :: "'a list \<Rightarrow> 'a list list" where
  "orderings [] = [[]]"
| "orderings (x # xs) = concat (map (inserts x) (orderings xs))"

definition fetch :: "plan \<Rightarrow> vector \<Rightarrow> document list \<Rightarrow> document list list" where
  "fetch p query_embedding selected =
     filter (\<lambda>rows. sorted (map (order_by query_embedding) rows))
       (case p of
          SeqScan \<Rightarrow> orderings selected
        | IndexScan \<Rightarrow> concat (map orderings (subseqs selected)))"

text \<open>
  The function returns one of the listed results. \<open>LIMIT match_count\<close> raises an error
  when the count is negative. The arguments \<open>query_embedding\<close>, \<open>match_threshold\<close> and
  \<open>match_count\<close> are taken to be non-null; the two filters default to NULL and are
  options.
\<close>

definition match_documents ::
  "plan \<Rightarrow> vector \<Rightarrow> real \<Rightarrow> int \<Rightarrow> string option \<Rightarrow> string option \<Rightarrow> document list
     \<Rightarrow> (sql_error + match_row list) list" where
  "match_documents p query_embedding match_threshold match_count filter_user_id filter_source documents =
     (if match_count < 0 then [Inl LimitNegative]
      else map (\<lambda>rows. Inr (map (select_list query_embedding) (take (nat match_count) rows)))
             (fetch p query_embedding
               (filter (where_clause query_embedding match_threshold filter_user_id filter_source)
                  documents)))"

section \<open>Rows and statements on table documents\<close>

text \<open>
  \<open>gen_random_uuid()\<close> is modelled as a value that differs from every identifier in use.
\<close>

definition gen_random_uuid :: "uuid list \<Rightarrow> uuid" where
  "gen_random_uuid used = Suc (fold max used 0)"

text \<open>
  \<open>INSERT INTO documents\<close>: the statement supplies every column except \<open>id\<close>,
  \<open>created_at\<close> and \<open>updated_at\<close>, which take their defaults. The unique constraint
  rejects a row whose (source, source\_id, user\_id) is already stored.
\<close>

definition insert_document ::
  "timestamptz \<Rightarrow> document \<Rightarrow> document list \<Rightarrow> sql_error + (uuid \<times> document list)" where
  "insert_document now new documents =
     (let row = new\<lparr>d_id := gen_random_uuid (map d_id documents),
                     d_created_at := Some now, d_updated_at := Some now\<rparr>
      in if unique_source_document row \<in> set (map unique_source_document documents)
         then Inl UniqueViolation
         else Inr (d_id row, documents @ [row]))"

datatype store_error = DuplicateDocumentError

text \<open>
  Modelled from the spec: the body of the Document Store's \<open>store\<close> (services/document\_store.py)
  is not among the sources. \<open>store(doc)\<close> inserts a Document and answers a violation of the
  uniqueness invariant with \<open>DuplicateDocumentError\<close>.
\<close>

definition store ::
  "timestamptz \<Rightarrow> document \<Rightarrow> document list \<Rightarrow> (store_error + uuid) \<times> document list" where
  "store now doc documents =
     (case insert_document now doc documents of
        Inl _ \<Rightarrow> (Inl DuplicateDocumentError, documents)
      | Inr (i, documents') \<Rightarrow> (Inr i, documents'))"

text \<open>The trigger function \<open>update_updated_at_column\<close>, run \<open>BEFORE UPDATE ... FOR EACH ROW\<close>.\<close>

definition update_updated_at_column :: "timestamptz \<Rightarrow> document \<Rightarrow> document" where
  "update_updated_at_column now NEW = NEW\<lparr>d_updated_at := Some now\<rparr>"

section \<open>Table document\_entities\<close>

record document_entity =
  de_id :: uuid
  de_document_id :: uuid
  de_entity_uuid :: string
  de_entity_type :: string
  de_entity_name :: string
  de_mention_count :: "int option"
  de_relevance_score :: "real option"
  de_created_at :: "timestamptz option"

text \<open>The columns of \<open>CONSTRAINT unique_document_entity UNIQUE(document_id, entity_uuid)\<close>.\<close>

definition unique_document_entity :: "document_entity \<Rightarrow> uuid \<times> string" where
  "unique_document_entity l = (de_document_id l, de_entity_uuid l)"

record db =
  documents :: "document list"
  document_entities :: "document_entity list"

definition empty_db :: db where
  "empty_db = \<lparr> documents = [], document_entities = [] \<rparr>"

text \<open>
  \<open>INSERT INTO document_entities\<close>: \<open>document_id\<close> must reference a stored document, and
  the pair (document\_id, entity\_uuid) must be new. The table declares no \<open>CHECK\<close> on
  \<open>mention_count\<close> or \<open>relevance_score\<close>.
\<close>

definition insert_document_entity ::
  "timestamptz \<Rightarrow> document_entity \<Rightarrow> db \<Rightarrow> sql_error + db" where
  "insert_document_entity now new s =
     (let row = new\<lparr>de_id := gen_random_uuid (map de_id (document_entities s)),
                     de_created_at := Some now\<rparr>
      in if de_document_id row \<notin> set (map d_id (documents s)) then Inl ForeignKeyViolation
         else if unique_document_entity row \<in> set (map unique_document_entity (document_entities s))
         then Inl UniqueViolation
         else Inr (s\<lparr>document_entities := document_entities s @ [row]\<rparr>))"

text \<open>
  \<open>UPDATE documents SET ... WHERE ...\<close>: the trigger runs on every row the condition
  selects, after the \<open>SET\<close> clause has produced the new row. The statement fails when the
  result breaks the primary key, the unique constraint, or the reference a row of
  \<open>document_entities\<close> holds (\<open>ON UPDATE NO ACTION\<close>). The constraints are checked on the
  final table.
\<close>

definition update_documents ::
  "timestamptz \<Rightarrow> (document \<Rightarrow> bool) \<Rightarrow> (document \<Rightarrow> document) \<Rightarrow> db \<Rightarrow> sql_error + db" where
  "update_documents now cond set_clause s =
     (let documents' = map (\<lambda>d. if cond d then update_updated_at_column now (set_clause d) else d)
                          (documents s)
      in if \<not> distinct (map d_id documents') \<or> \<not> distinct (map unique_source_document documents')
         then Inl UniqueViolation
         else if \<exists>l \<in> set (document_entities s). de_document_id l \<notin> set (map d_id documents')
         then Inl ForeignKeyViolation
         else Inr (s\<lparr>documents := documents'\<rparr>))"

text \<open>
  The embedding backfill of the migration guide:
  \<open>table('documents').update({'vector_embedding': embedding}).eq('id', doc['id'])\<close>.
\<close>

definition backfill_embedding :: "timestamptz \<Rightarrow> uuid \<Rightarrow> vector \<Rightarrow> db \<Rightarrow> sql_error + db" where
  "backfill_embedding now i embedding s =
     update_documents now (\<lambda>d. d_id d = i) (\<lambda>d. d\<lparr>d_vector_embedding := Some embedding\<rparr>) s"

text \<open>
  \<open>DELETE FROM documents WHERE ...\<close>: \<open>ON DELETE CASCADE\<close> removes the rows of
  \<open>document_entities\<close> that reference a deleted document.
\<close>

definition delete_documents :: "(document \<Rightarrow> bool) \<Rightarrow> db \<Rightarrow> db" where
  "delete_documents cond s =
     (let deleted = map d_id (filter cond (documents s))
      in \<lparr> documents = filter (\<lambda>d. \<not> cond d) (documents s),
           document_entities = filter (\<lambda>l. de_document_id l \<notin> set deleted) (document_entities s) \<rparr>)"

datatype link_error = InvariantViolation | DocumentNotFound

text \<open>The merge of a stored, possibly NULL, value with a new one: the larger of the two.\<close>

definition merge_max :: "('a::linorder) option \<Rightarrow> 'a \<Rightarrow> 'a option" where
  "merge_max old new = (case old of None \<Rightarrow> Some new | Some v \<Rightarrow> Some (max v new))"

text \<open>
  Modelled from the spec: the body of the Entity Bridge's \<open>link\<close> (services/document\_store.py)
  is not among the sources. \<open>link\<close> rejects a relevance score outside [0,1] and a mention
  count below 1 before it writes; it upserts the link, and when the pair
  (documentId, entityId) exists it keeps the maximum of the mention counts and the maximum
  of the relevance scores.
\<close>

definition link ::
  "timestamptz \<Rightarrow> uuid \<Rightarrow> string \<Rightarrow> string \<Rightarrow> string \<Rightarrow> int \<Rightarrow> real \<Rightarrow> db \<Rightarrow> link_error + db" where
  "link now document_id entity_id entity_type entity_name mention_count relevance_score s =
     (if relevance_score < 0 \<or> 1 < relevance_score \<or> mention_count < 1 then Inl InvariantViolation
      else if (document_id, entity_id) \<in> set (map unique_document_entity (document_entities s))
      then Inr (s\<lparr>document_entities :=
                  map (\<lambda>l. if unique_document_entity l = (document_id, entity_id)
                            then l\<lparr>de_mention_count := merge_max (de_mention_count l) mention_count,
                                  de_relevance_score := merge_max (de_relevance_score l) relevance_score\<rparr>
                            else l)
                      (document_entities s)\<rparr>)
      else (case insert_document_entity now
                  \<lparr> de_id = 0, de_document_id = document_id, de_entity_uuid = entity_id,
                    de_entity_type = entity_type, de_entity_name = entity_name,
                    de_mention_count = Some mention_count,
                    de_relevance_score = Some relevance_score, de_created_at = None \<rparr> s of
              Inl _ \<Rightarrow> Inl DocumentNotFound
            | Inr s' \<Rightarrow> Inr s'))"

text \<open>
  The operations that write the two tables. An operation that fails leaves them as they
  were.
\<close>

datatype op =
    Store timestamptz document
  | BackfillEmbedding timestamptz uuid vector
  | Link timestamptz uuid string string string int real
  | DeleteDocument uuid

fun apply_op :: "op \<Rightarrow> db \<Rightarrow> db" where
  "apply_op (Store now doc) s = s\<lparr>documents := snd (store now doc (documents s))\<rparr>"
| "apply_op (BackfillEmbedding now i v) s =
     (case backfill_embedding now i v s of Inl _ \<Rightarrow> s | Inr s' \<Rightarrow> s')"
| "apply_op (Link now i e t n c r) s =
     (case link now i e t n c r s of Inl _ \<Rightarrow> s | Inr s' \<Rightarrow> s')"
| "apply_op (DeleteDocument i) s = delete_documents (\<lambda>d. d_id d = i) s"

definition is_delete :: "op \<Rightarrow> bool" where
  "is_delete x = (case x of DeleteDocument _ \<Rightarrow> True | _ \<Rightarrow> False)"

text \<open>Every link references a stored document.\<close>

definition references_ok :: "db \<Rightarrow> bool" where
  "references_ok s \<longleftrightarrow> list_all (\<lambda>l. de_document_id l \<in> set (map d_id (documents s))) (document_entities s)"

text \<open>What the spec requires of every stored link.\<close>

definition link_in_range :: "document_entity \<Rightarrow> bool" where
  "link_in_range l \<longleftrightarrow>
     (case de_relevance_score l of None \<Rightarrow> False | Some r \<Rightarrow> 0 \<le> r \<and> r \<le> 1) \<and>
     (case de_mention_count l of None \<Rightarrow> False | Some c \<Rightarrow> 1 \<le> c)"

section \<open>Table processed\_episodes\<close>

record processed_episode =
  pe_id :: uuid
  pe_user_id :: string
  pe_source :: string
  pe_source_id :: string
  pe_episode_uuid :: "uuid option"
  pe_processed_at :: "timestamptz option"

text \<open>The columns of \<open>CONSTRAINT unique_episode UNIQUE(user_id, source, source_id)\<close>.\<close>

definition unique_episode :: "processed_episode \<Rightarrow> string \<times> string \<times> string" where
  "unique_episode r = (pe_user_id r, pe_source r, pe_source_id r)"

definition insert_processed_episode ::
  "timestamptz \<Rightarrow> string \<Rightarrow> string \<Rightarrow> string \<Rightarrow> uuid option \<Rightarrow> processed_episode list
     \<Rightarrow> sql_error + processed_episode list" where
  "insert_processed_episode now user_id source source_id episode_uuid processed_episodes =
     (let row = \<lparr> pe_id = gen_random_uuid (map pe_id processed_episodes), pe_user_id = user_id,
                   pe_source = source, pe_source_id = source_id,
                   pe_episode_uuid = episode_uuid, pe_processed_at = Some now \<rparr>
      in if unique_episode row \<in> set (map unique_episode processed_episodes)
         then Inl UniqueViolation
         else Inr (processed_episodes @ [row]))"

text \<open>
  Modelled from the spec: the body of \<open>has_episode_been_processed\<close>
  (services/graphiti\_service.py) is not among the sources. \<open>hasBeenProcessed\<close> is a point
  lookup of the triple.
\<close>

definition has_episode_been_processed ::
  "string \<Rightarrow> string \<Rightarrow> string \<Rightarrow> processed_episode list \<Rightarrow> bool" where
  "has_episode_been_processed source source_id user_id processed_episodes \<longleftrightarrow>
     (user_id, source, source_id) \<in> set (map unique_episode processed_episodes)"

datatype mark_result = Claimed | AlreadyClaimed

text \<open>
  Modelled from the spec: the body of \<open>mark_episode_as_processed\<close>
  (services/graphiti\_service.py) is not among the sources. \<open>markProcessed\<close> inserts a
  record; when the triple exists it reports "already claimed" and raises no error.
\<close>

definition mark_episode_as_processed ::
  "timestamptz \<Rightarrow> string \<Rightarrow> string \<Rightarrow> string \<Rightarrow> uuid option \<Rightarrow> processed_episode list
     \<Rightarrow> mark_result \<times> processed_episode list" where
  "mark_episode_as_processed now source source_id user_id episode_uuid processed_episodes =
     (case insert_processed_episode now user_id source source_id episode_uuid processed_episodes of
        Inl _ \<Rightarrow> (AlreadyClaimed, processed_episodes)
      | Inr processed_episodes' \<Rightarrow> (Claimed, processed_episodes'))"

text \<open>The ledger after a sequence of \<open>markProcessed\<close> calls on an empty table.\<close>

fun mark_all ::
  "(timestamptz \<times> string \<times> string \<times> string \<times> uuid option) list \<Rightarrow> processed_episode list
     \<Rightarrow> processed_episode list" where
  "mark_all [] t = t"
| "mark_all ((now, source, source_id, user_id, ep) # cs) t =
     mark_all cs (snd (mark_episode_as_processed now source source_id user_id ep t))"


section \<open>The Gmail webhook handler\<close>

text \<open>
  The handler of the optimization report:
  \<^verbatim>\<open>
  async def gmail_webhook(event: WebhookEvent):
      if await has_episode_been_processed('gmail', event.message_id, user_id):
          return {"status": "already_processed"}
      await process_email(event)
      await mark_episode_as_processed('gmail', event.message_id, user_id)
  \<close>
\<close>

record webhook_event =
  e_message_id :: string
  e_user_id :: string
  e_subject :: string
  e_body :: string

record system =
  s_processed_episodes :: "processed_episode list"
  s_documents :: "document list"
  s_extraction_calls :: nat

definition empty_system :: system where
  "empty_system = \<lparr> s_processed_episodes = [], s_documents = [], s_extraction_calls = 0 \<rparr>"

definition document_of :: "webhook_event \<Rightarrow> document" where
  "document_of event =
     \<lparr> d_id = 0, d_user_id = e_user_id event, d_source = ''gmail'',
       d_source_id = e_message_id event, d_doc_type = ''email'',
       d_subject = Some (e_subject event), d_content = e_body event,
       d_content_preview = Some (take 200 (e_body event)), d_metadata = Some ''{}'',
       d_source_created_at = None, d_created_at = None, d_updated_at = None,
       d_vector_embedding = None \<rparr>"

text \<open>
  Modelled from the spec: the body of \<open>process_email\<close> is not among the sources. Within one
  event the pipeline writes the document (a duplicate is a no-op) and then calls the
  extraction engine once. Linking the entities does not touch what is counted here and is
  left out.
\<close>

definition process_email :: "timestamptz \<Rightarrow> webhook_event \<Rightarrow> system \<Rightarrow> system" where
  "process_email now event s =
     s\<lparr>s_documents := snd (store now (document_of event) (s_documents s)),
       s_extraction_calls := Suc (s_extraction_calls s)\<rparr>"

datatype response = AlreadyProcessed | Completed

definition gmail_webhook :: "timestamptz \<Rightarrow> webhook_event \<Rightarrow> system \<Rightarrow> response \<times> system" where
  "gmail_webhook now event s =
     (if has_episode_been_processed ''gmail'' (e_message_id event) (e_user_id event)
           (s_processed_episodes s)
      then (AlreadyProcessed, s)
      else let s1 = process_email now event s
           in (Completed,
               s1\<lparr>s_processed_episodes :=
                    snd (mark_episode_as_processed now ''gmail'' (e_message_id event)
                           (e_user_id event) None (s_processed_episodes s1))\<rparr>))"

text \<open>
  Each \<open>await\<close> is a point where another delivery may run. A request is at one of the three
  awaited calls or has returned; \<open>step\<close> runs the awaited call of one request.
\<close>

datatype request = AtCheck | AtProcessEmail | AtMark | Returned response

fun step :: "timestamptz \<Rightarrow> webhook_event \<Rightarrow> request \<Rightarrow> system \<Rightarrow> request \<times> system" where
  "step now event AtCheck s =
     (if has_episode_been_processed ''gmail'' (e_message_id event) (e_user_id event)
           (s_processed_episodes s)
      then (Returned AlreadyProcessed, s)
      else (AtProcessEmail, s))"
| "step now event AtProcessEmail s = (AtMark, process_email now event s)"
| "step now event AtMark s =
     (Returned Completed,
      s\<lparr>s_processed_episodes :=
           snd (mark_episode_as_processed now ''gmail'' (e_message_id event)
                  (e_user_id event) None (s_processed_episodes s))\<rparr>)"
| "step now event (Returned r) s = (Returned r, s)"

text \<open>A schedule names, step by step, the request that runs next.\<close>

fun run_schedule ::
  "timestamptz \<Rightarrow> nat list \<Rightarrow> (webhook_event \<times> request) list \<times> system
     \<Rightarrow> (webhook_event \<times> request) list \<times> system" where
  "run_schedule now [] c = c"
| "run_schedule now (i # sched) (rs, s) =
     (if i < length rs
      then (case step now (fst (rs ! i)) (snd (rs ! i)) s of
              (r', s') \<Rightarrow> run_schedule now sched (rs[i := (fst (rs ! i), r')], s'))
      else run_schedule now sched (rs, s))"

text \<open>Deliveries handled one after the other.\<close>

fun deliver :: "timestamptz \<Rightarrow> webhook_event \<Rightarrow> nat \<Rightarrow> system \<Rightarrow> system" where
  "deliver now event 0 s = s"
| "deliver now event (Suc n) s = deliver now event n (snd (gmail_webhook now event s))"

section \<open>Example rows\<close>

text \<open>
  Vectors of dimension 1536, documents, and the tables and events the examples below run
  on. \<open>doc_old\<close> and \<open>doc_new\<close> have the same embedding; \<open>doc_old_late\<close> and
  \<open>doc_new_early\<close> are the same two documents with their timestamps exchanged.
\<close>

definition axis1 :: vector where
  "axis1 = 1 # replicate 1535 0"

definition axis2 :: vector where
  "axis2 = 0 # 1 # replicate 1534 0"

definition doc_old :: document where
  "doc_old = \<lparr> d_id = 1, d_user_id = ''alice'', d_source = ''gmail'', d_source_id = ''m1'',
      d_doc_type = ''email'', d_subject = Some ''Pricing'', d_content = ''Pricing discussion'',
      d_content_preview = Some ''Pricing discussion'', d_metadata = Some ''{}'',
      d_source_created_at = Some 100, d_created_at = Some 300, d_updated_at = Some 300,
      d_vector_embedding = Some axis1 \<rparr>"

definition doc_new :: document where
  "doc_new = \<lparr> d_id = 2, d_user_id = ''bob'', d_source = ''slack'', d_source_id = ''m2'',
      d_doc_type = ''slack_message'', d_subject = None, d_content = ''Pricing follow-up'',
      d_content_preview = Some ''Pricing follow-up'', d_metadata = Some ''{}'',
      d_source_created_at = Some 200, d_created_at = Some 300, d_updated_at = Some 300,
      d_vector_embedding = Some axis1 \<rparr>"

definition doc_orth :: document where
  "doc_orth = \<lparr> d_id = 3, d_user_id = ''alice'', d_source = ''gmail'', d_source_id = ''m3'',
      d_doc_type = ''email'', d_subject = Some ''Lunch'', d_content = ''Lunch on Friday'',
      d_content_preview = Some ''Lunch on Friday'', d_metadata = Some ''{}'',
      d_source_created_at = Some 150, d_created_at = Some 300, d_updated_at = Some 300,
      d_vector_embedding = Some axis2 \<rparr>"

definition vec34 :: vector where
  "vec34 = 3 # 4 # replicate 1534 0"

definition doc_mid :: document where
  "doc_mid = \<lparr> d_id = 4, d_user_id = ''bob'', d_source = ''slack'', d_source_id = ''m4'',
      d_doc_type = ''slack_message'', d_subject = None, d_content = ''Pricing and lunch'',
      d_content_preview = Some ''Pricing and lunch'', d_metadata = Some ''{}'',
      d_source_created_at = Some 120, d_created_at = Some 300, d_updated_at = Some 300,
      d_vector_embedding = Some vec34 \<rparr>"

definition doc_old_late :: document where
  "doc_old_late = doc_old\<lparr>d_source_created_at := Some 200\<rparr>"

definition doc_new_early :: document where
  "doc_new_early = doc_new\<lparr>d_source_created_at := Some 100\<rparr>"

definition retry_event :: webhook_event where
  "retry_event = \<lparr> e_message_id = ''m1'', e_user_id = ''alice'', e_subject = ''Pricing'',
      e_body = ''Pricing discussion'' \<rparr>"

definition two_docs :: db where
  "two_docs = \<lparr> documents = [doc_old, doc_orth], document_entities = [] \<rparr>"

definition ledger_row :: processed_episode where
  "ledger_row = \<lparr> pe_id = 1, pe_user_id = ''alice'', pe_source = ''gmail'', pe_source_id = ''m1'',
       pe_episode_uuid = Some 7, pe_processed_at = Some 10 \<rparr>"

definition mail_a :: document where
  "mail_a = \<lparr> d_id = 0, d_user_id = ''alice'', d_source = ''gmail'', d_source_id = ''m1'',
      d_doc_type = ''email'', d_subject = Some ''Pricing'', d_content = ''Pricing discussion'',
      d_content_preview = Some ''Pricing discussion'', d_metadata = Some ''{}'',
      d_source_created_at = Some 100, d_created_at = None, d_updated_at = None,
      d_vector_embedding = None \<rparr>"

definition mail_a_retry :: document where
  "mail_a_retry = mail_a\<lparr>d_content := ''Pricing discussion (resent)''\<rparr>"

definition one_doc :: db where
  "one_doc = \<lparr> documents = [doc_old], document_entities = [] \<rparr>"

definition acme_link :: "int \<Rightarrow> real \<Rightarrow> document_entity" where
  "acme_link c r = \<lparr> de_id = 1, de_document_id = 1, de_entity_uuid = ''acme'',
       de_entity_type = ''Company'', de_entity_name = ''Acme Corp'',
       de_mention_count = Some c, de_relevance_score = Some r, de_created_at = Some 10 \<rparr>"

definition linked_doc :: db where
  "linked_doc = \<lparr> documents = [doc_old], document_entities = [acme_link 1 (4/10)] \<rparr>"

definition orth_link :: document_entity where
  "orth_link = \<lparr> de_id = 2, de_document_id = 3, de_entity_uuid = ''globex'',
       de_entity_type = ''Company'', de_entity_name = ''Globex'',
       de_mention_count = Some 2, de_relevance_score = Some (1/2), de_created_at = Some 10 \<rparr>"

definition two_linked_docs :: db where
  "two_linked_docs = \<lparr> documents = [doc_old, doc_orth],
       document_entities = [acme_link 1 (4/10), orth_link] \<rparr>"


section \<open>Auxiliary definitions\<close>

text \<open>A table whose \<open>source_created_at\<close> column is replaced row by row.\<close>

definition with_source_created_at :: "(document \<Rightarrow> timestamptz option) \<Rightarrow> document \<Rightarrow> document" where
  "with_source_created_at ts d = d\<lparr>d_source_created_at := ts d\<rparr>"

text \<open>A table whose documents are handed to other users, or to other sources.\<close>

definition with_user_id :: "(document \<Rightarrow> string) \<Rightarrow> document \<Rightarrow> document" where
  "with_user_id u d = d\<lparr>d_user_id := u d\<rparr>"

definition with_source :: "(document \<Rightarrow> string) \<Rightarrow> document \<Rightarrow> document" where
  "with_source src d = d\<lparr>d_source := src d\<rparr>"

text \<open>What a result ranks: the identifiers of its rows, in order, with their similarities.\<close>

definition ranking :: "sql_error + match_row list \<Rightarrow> sql_error + (uuid \<times> real option) list" where
  "ranking res = map_sum id (map (\<lambda>r. (m_id r, m_similarity r))) res"

text \<open>A stored link after \<open>link\<close> has merged a new count and score into it.\<close>

definition merged :: "int \<Rightarrow> real \<Rightarrow> document_entity \<Rightarrow> document_entity" where
  "merged c r l = l\<lparr>de_mention_count := merge_max (de_mention_count l) c,
                    de_relevance_score := merge_max (de_relevance_score l) r\<rparr>"

text \<open>The row that \<open>link\<close> inserts for a pair that is not stored yet.\<close>

definition link_row :: "timestamptz \<Rightarrow> uuid \<Rightarrow> string \<Rightarrow> string \<Rightarrow> string \<Rightarrow> int \<Rightarrow> real \<Rightarrow> db \<Rightarrow> document_entity" where
  "link_row now i e t n c r s =
     \<lparr> de_id = gen_random_uuid (map de_id (document_entities s)), de_document_id = i,
       de_entity_uuid = e, de_entity_type = t, de_entity_name = n,
       de_mention_count = Some c, de_relevance_score = Some r, de_created_at = Some now \<rparr>"

text \<open>A third user, to whom every document can be handed.\<close>

definition carol :: "document \<Rightarrow> string" where
  "carol d = ''carol''"

section \<open>Similarity search\<close>

lemma where_clause_similarity:
  assumes "where_clause q thr fu fs d"
  obtains e where "d_vector_embedding d = Some e"
    and "similarity q d = Some (1 - cosine_distance e q)"
    and "order_by q d = (False, cosine_distance e q)"
    and "thr < 1 - cosine_distance e q"
proof (cases "d_vector_embedding d")
  case None
  with assms show ?thesis by (simp add: where_clause_def similarity_def)
next
  case (Some e)
  with assms have "thr < 1 - cosine_distance e q"
    by (simp add: where_clause_def similarity_def)
  with Some that show ?thesis by (simp add: similarity_def order_by_def)
qed

lemma where_clause_iff:
  "where_clause q thr fu fs d \<longleftrightarrow>
     (fu = None \<or> Some (d_user_id d) = fu) \<and> (fs = None \<or> Some (d_source d) = fs) \<and>
     (\<exists>e. d_vector_embedding d = Some e \<and> thr < 1 - cosine_distance e q)"
  by (cases "d_vector_embedding d") (simp_all add: where_clause_def similarity_def)

lemma inserts_set: "xs \<in> set (inserts x ys) \<Longrightarrow> set xs = insert x (set ys)"
  by (induction ys arbitrary: xs) auto

lemma orderings_set: "xs \<in> set (orderings ys) \<Longrightarrow> set xs = set ys"
  by (induction ys arbitrary: xs) (auto dest: inserts_set)

lemma subseqs_set: "xs \<in> set (subseqs ys) \<Longrightarrow> set xs \<subseteq> set ys"
  using subseqs_powset[of ys] by blast

lemma insort_key_in_inserts: "insort_key f x zs \<in> set (inserts x zs)"
  by (induction zs) auto

lemma sort_key_in_orderings: "sort_key f ys \<in> set (orderings ys)"
proof (induction ys)
  case Nil show ?case by simp
next
  case (Cons y ys)
  have "insort_key f y (sort_key f ys) \<in> set (inserts y (sort_key f ys))"
    by (rule insort_key_in_inserts)
  with Cons show ?case by auto
qed

lemma fetch_sound:
  assumes "xs \<in> set (fetch p q ys)"
  shows "sorted (map (order_by q) xs)" and "set xs \<subseteq> set ys" and "p = SeqScan \<Longrightarrow> set xs = set ys"
proof -
  from assms show "sorted (map (order_by q) xs)" by (simp add: fetch_def)
  from assms show "set xs \<subseteq> set ys"
    by (cases p) (auto simp: fetch_def dest: orderings_set subseqs_set)
  assume "p = SeqScan"
  with assms show "set xs = set ys" by (auto simp: fetch_def dest: orderings_set)
qed

lemma fetch_nonempty: "sort_key (order_by q) ys \<in> set (fetch p q ys)"
proof (cases p)
  case SeqScan
  then show ?thesis by (simp add: fetch_def sort_key_in_orderings)
next
  case IndexScan
  have "ys \<in> set (subseqs ys)" by (simp add: subseqs_refl)
  with IndexScan show ?thesis
    by (auto simp: fetch_def intro: sort_key_in_orderings)
qed

lemma match_documents_Inr:
  "Inr rs \<in> set (match_documents p q thr cnt fu fs docs) \<longleftrightarrow>
     0 \<le> cnt \<and> (\<exists>xs \<in> set (fetch p q (filter (where_clause q thr fu fs) docs)).
                   rs = map (select_list q) (take (nat cnt) xs))"
  by (auto simp: match_documents_def)

text \<open>
  The function always has a result to return.
\<close>

lemma match_documents_returns: "match_documents p q thr cnt fu fs docs \<noteq> []"
  using fetch_nonempty[of q "filter (where_clause q thr fu fs) docs" p]
  by (auto simp: match_documents_def)

lemma ranked_descending:
  assumes srt: "sorted (map (order_by q) xs)"
    and wc: "\<And>d. d \<in> set xs \<Longrightarrow> where_clause q thr fu fs d"
    and ij: "i < j" "j < length xs"
  shows "\<exists>x y. similarity q (xs ! i) = Some x \<and> similarity q (xs ! j) = Some y \<and> y \<le> x"
proof -
  from ij have li: "i < length xs" by simp
  from srt ij have le: "order_by q (xs ! i) \<le> order_by q (xs ! j)"
    by (simp add: sorted_iff_nth_mono)
  from li wc obtain ei where ei: "similarity q (xs ! i) = Some (1 - cosine_distance ei q)"
     "order_by q (xs ! i) = (False, cosine_distance ei q)"
    by (meson nth_mem where_clause_similarity)
  from ij(2) wc obtain ej where ej: "similarity q (xs ! j) = Some (1 - cosine_distance ej q)"
     "order_by q (xs ! j) = (False, cosine_distance ej q)"
    by (meson nth_mem where_clause_similarity)
  from le ei ej have "cosine_distance ei q \<le> cosine_distance ej q"
    by (simp add: less_eq_prod_def)
  with ei ej show ?thesis by simp
qed

lemma ranked_top:
  assumes srt: "sorted (map (order_by q) xs)"
    and wc: "\<And>d. d \<in> set xs \<Longrightarrow> where_clause q thr fu fs d"
    and d: "d \<in> set xs" "d \<notin> set (take n xs)"
    and c: "c \<in> set (take n xs)"
  shows "\<exists>x y. similarity q d = Some x \<and> similarity q c = Some y \<and> x \<le> y"
proof -
  from srt have "sorted (map (order_by q) (take n xs @ drop n xs))" by simp
  then have ap: "\<forall>a\<in>set (take n xs). \<forall>b\<in>set (drop n xs). order_by q a \<le> order_by q b"
    unfolding map_append sorted_append by auto
  from d(1) have "d \<in> set (take n xs @ drop n xs)" by simp
  with d(2) have "d \<in> set (drop n xs)" unfolding set_append by blast
  with ap c have le: "order_by q c \<le> order_by q d" by blast
  from d(1) wc obtain ed where ed: "similarity q d = Some (1 - cosine_distance ed q)"
     "order_by q d = (False, cosine_distance ed q)"
    by (meson where_clause_similarity)
  from c have "c \<in> set xs" by (rule in_set_takeD)
  with wc obtain ec where ec: "similarity q c = Some (1 - cosine_distance ec q)"
     "order_by q c = (False, cosine_distance ec q)"
    by (meson where_clause_similarity)
  from le ed ec have "cosine_distance ec q \<le> cosine_distance ed q"
    by (simp add: less_eq_prod_def)
  with ed ec show ?thesis by simp
qed

lemma take_missing: "x \<in> set xs \<Longrightarrow> x \<notin> set (take n xs) \<Longrightarrow> length (take n xs) = n"
  by (cases "n \<le> length xs") auto

lemma inserts_map: "inserts (g x) (map g ys) = map (map g) (inserts x ys)"
  by (induction ys) simp_all

lemma orderings_map: "orderings (map g ys) = map (map g) (orderings ys)"
  by (induction ys) (simp_all add: map_concat inserts_map comp_def)

lemma subseqs_map_list: "subseqs (map g ys) = map (map g) (subseqs ys)"
  by (induction ys) (simp_all add: Let_def)

lemma fetch_map:
  assumes "\<And>d. order_by q (g d) = order_by q d"
  shows "fetch p q (map g ys) = map (map g) (fetch p q ys)"
proof -
  let ?P = "\<lambda>rows. sorted (map (order_by q) rows)"
  have key: "?P (map g xs) = ?P xs" for xs
    by (simp add: assms comp_def)
  have flt: "filter ?P (map (map g) zs) = map (map g) (filter ?P zs)" for zs
    by (induction zs) (simp_all add: key del: map_map)
  have "concat (map orderings (subseqs (map g ys))) = map (map g) (concat (map orderings (subseqs ys)))"
    by (simp add: subseqs_map_list map_concat orderings_map comp_def)
  then show ?thesis
    by (cases p) (simp_all add: fetch_def orderings_map flt del: map_map)
qed

text \<open>
  A change of the table that leaves the \<open>WHERE\<close> clause, the sort key, the identifiers and the similarities alone leaves the rankings the query may return alone.
\<close>

lemma match_documents_map:
  assumes wc: "\<And>d. where_clause q thr fu fs (g d) = where_clause q thr fu fs d"
    and ob: "\<And>d. order_by q (g d) = order_by q d"
    and rk: "\<And>d. m_id (select_list q (g d)) = m_id (select_list q d)"
            "\<And>d. m_similarity (select_list q (g d)) = m_similarity (select_list q d)"
  shows "map ranking (match_documents p q thr cnt fu fs (map g docs)) =
         map ranking (match_documents p q thr cnt fu fs docs)"
proof -
  have f: "filter (where_clause q thr fu fs) (map g docs) = map g (filter (where_clause q thr fu fs) docs)"
    by (simp add: filter_map comp_def wc)
  show ?thesis
    by (simp add: match_documents_def f fetch_map[OF ob] ranking_def comp_def take_map rk)
qed

lemma dot_zeros_left: "dot (replicate n 0) ys = 0"
proof (induction n arbitrary: ys)
  case 0 show ?case by simp
next
  case (Suc n) then show ?case by (cases ys) simp_all
qed

lemma replicate_1535: "replicate 1535 (0::real) = 0 # replicate 1534 0"
proof -
  have "(1535::nat) = Suc 1534" by simp
  then show ?thesis by (simp only: replicate_Suc)
qed

lemma sqrt_25: "sqrt 25 = 5"
  by (rule real_sqrt_unique) simp_all

lemma cosine_distance_axis11: "cosine_distance axis1 axis1 = 0"
  by (simp add: cosine_distance_def axis1_def dot_zeros_left)

lemma cosine_distance_axis21: "cosine_distance axis2 axis1 = 1"
  by (simp add: cosine_distance_def axis1_def axis2_def replicate_1535 dot_zeros_left)

lemma cosine_distance_vec34: "cosine_distance vec34 axis1 = 2/5"
  by (simp add: cosine_distance_def axis1_def vec34_def replicate_1535 dot_zeros_left sqrt_25)

lemma well_formed_examples:
  "well_formed_vector axis1" "well_formed_vector axis2" "well_formed_vector vec34"
  by (simp_all add: well_formed_vector_def embedding_dim_def axis1_def axis2_def vec34_def
      dot_zeros_left)

lemma order_by_examples:
  "order_by axis1 doc_old = (False, 0)"
  "order_by axis1 doc_new = (False, 0)"
  "order_by axis1 doc_old_late = (False, 0)"
  "order_by axis1 doc_new_early = (False, 0)"
  "order_by axis1 doc_mid = (False, 2/5)"
  "order_by axis1 doc_orth = (False, 1)"
  by (simp_all add: order_by_def doc_old_def doc_new_def doc_old_late_def doc_new_early_def
      doc_mid_def doc_orth_def cosine_distance_axis11 cosine_distance_axis21 cosine_distance_vec34)

lemma similarity_examples:
  "similarity axis1 doc_old = Some 1"
  "similarity axis1 doc_new = Some 1"
  "similarity axis1 doc_old_late = Some 1"
  "similarity axis1 doc_new_early = Some 1"
  "similarity axis1 doc_mid = Some (3/5)"
  "similarity axis1 doc_orth = Some 0"
  by (simp_all add: similarity_def doc_old_def doc_new_def doc_old_late_def doc_new_early_def
      doc_mid_def doc_orth_def cosine_distance_axis11 cosine_distance_axis21 cosine_distance_vec34)

lemma owner_examples:
  "d_user_id doc_old = ''alice''" "d_source doc_old = ''gmail''"
  "d_user_id doc_new = ''bob''" "d_source doc_new = ''slack''"
  "d_user_id doc_old_late = ''alice''" "d_source doc_old_late = ''gmail''"
  "d_user_id doc_new_early = ''bob''" "d_source doc_new_early = ''slack''"
  "d_user_id doc_mid = ''bob''" "d_source doc_mid = ''slack''"
  "d_user_id doc_orth = ''alice''" "d_source doc_orth = ''gmail''"
  by (simp_all add: doc_old_def doc_new_def doc_old_late_def doc_new_early_def doc_mid_def
      doc_orth_def)

lemma where_clause_examples:
  "where_clause axis1 thr fu fs doc_old \<longleftrightarrow>
     (fu = None \<or> fu = Some ''alice'') \<and> (fs = None \<or> fs = Some ''gmail'') \<and> thr < 1"
  "where_clause axis1 thr fu fs doc_new \<longleftrightarrow>
     (fu = None \<or> fu = Some ''bob'') \<and> (fs = None \<or> fs = Some ''slack'') \<and> thr < 1"
  "where_clause axis1 thr fu fs doc_old_late \<longleftrightarrow>
     (fu = None \<or> fu = Some ''alice'') \<and> (fs = None \<or> fs = Some ''gmail'') \<and> thr < 1"
  "where_clause axis1 thr fu fs doc_new_early \<longleftrightarrow>
     (fu = None \<or> fu = Some ''bob'') \<and> (fs = None \<or> fs = Some ''slack'') \<and> thr < 1"
  "where_clause axis1 thr fu fs doc_mid \<longleftrightarrow>
     (fu = None \<or> fu = Some ''bob'') \<and> (fs = None \<or> fs = Some ''slack'') \<and> thr < 3/5"
  "where_clause axis1 thr fu fs doc_orth \<longleftrightarrow>
     (fu = None \<or> fu = Some ''alice'') \<and> (fs = None \<or> fs = Some ''gmail'') \<and> thr < 0"
  by (auto simp add: where_clause_def similarity_examples owner_examples)

lemma well_formed_tables:
  "well_formed_search axis1 [doc_mid, doc_old, doc_orth]"
  "well_formed_search axis1 [doc_old, doc_new]"
  "well_formed_search axis1 [doc_old_late, doc_new_early]"
  "well_formed_search axis1 [doc_orth]"
  by (simp_all add: well_formed_search_def well_formed_examples doc_old_def doc_new_def
      doc_old_late_def doc_new_early_def doc_mid_def doc_orth_def)

lemma match_documents_ranked_rows:
  "match_documents SeqScan axis1 (1/2) 10 None None [doc_mid, doc_old, doc_orth] =
     [Inr [select_list axis1 doc_old, select_list axis1 doc_mid]]"
  by (simp add: match_documents_def fetch_def where_clause_examples order_by_examples
      less_eq_prod_def)

lemma match_documents_first_row:
  "match_documents SeqScan axis1 (1/2) 1 None None [doc_mid, doc_old, doc_orth] =
     [Inr [select_list axis1 doc_old]]"
  by (simp add: match_documents_def fetch_def where_clause_examples order_by_examples
      less_eq_prod_def)

lemma match_documents_alice_rows:
  "match_documents SeqScan axis1 (1/2) 10 (Some ''alice'') None [doc_mid, doc_old, doc_orth] =
     [Inr [select_list axis1 doc_old]]"
  by (simp add: match_documents_def fetch_def where_clause_examples order_by_examples
      less_eq_prod_def)

lemma match_documents_tied_rows:
  "match_documents SeqScan axis1 0 10 None None [doc_old, doc_new] =
     [Inr [select_list axis1 doc_old, select_list axis1 doc_new],
      Inr [select_list axis1 doc_new, select_list axis1 doc_old]]"
  "match_documents SeqScan axis1 0 10 None None [doc_old_late, doc_new_early] =
     [Inr [select_list axis1 doc_old_late, select_list axis1 doc_new_early],
      Inr [select_list axis1 doc_new_early, select_list axis1 doc_old_late]]"
  by (simp_all add: match_documents_def fetch_def where_clause_examples order_by_examples
      less_eq_prod_def)

lemma match_documents_at_threshold:
  "match_documents SeqScan axis1 0 10 None None [doc_orth] = [Inr []]"
  "match_documents IndexScan axis1 0 10 None None [doc_orth] = [Inr []]"
  by (simp_all add: match_documents_def fetch_def where_clause_examples)

text \<open>
  Claim C2, amended. On a well-formed search, under either plan, every returned row carries the similarity \<open>1 - cosine_distance\<close> of a stored document with an embedding, and the rows come in non-increasing order of that similarity. \<open>source_created_at\<close> plays no part in the order: the rankings the query may return are the same whatever the timestamps of the table are.
\<close>

theorem match_documents_order:
  assumes "well_formed_search q docs"
    and "Inr rs \<in> set (match_documents p q thr cnt fu fs docs)"
  shows "(\<forall>r \<in> set rs. \<exists>d \<in> set docs. \<exists>e. r = select_list q d \<and> d_vector_embedding d = Some e \<and>
            m_similarity r = Some (1 - cosine_distance e q)) \<and>
         (\<forall>i j. i < j \<and> j < length rs \<longrightarrow>
            (\<exists>x y. m_similarity (rs ! i) = Some x \<and> m_similarity (rs ! j) = Some y \<and> y \<le> x)) \<and>
         (\<forall>ts. map ranking (match_documents p q thr cnt fu fs (map (with_source_created_at ts) docs)) =
               map ranking (match_documents p q thr cnt fu fs docs))"
proof (intro conjI allI impI ballI)
  from assms(2) obtain xs where
    xs: "xs \<in> set (fetch p q (filter (where_clause q thr fu fs) docs))"
    and rs: "rs = map (select_list q) (take (nat cnt) xs)"
    unfolding match_documents_Inr by blast
  from fetch_sound(1,2)[OF xs] have srt: "sorted (map (order_by q) xs)"
    and mem: "\<And>d. d \<in> set xs \<Longrightarrow> d \<in> set docs \<and> where_clause q thr fu fs d"
    by auto
  { fix r assume "r \<in> set rs"
    with rs obtain d where d: "d \<in> set (take (nat cnt) xs)" "r = select_list q d" by auto
    from d(1) have "d \<in> set xs" by (rule in_set_takeD)
    with mem have "d \<in> set docs" "where_clause q thr fu fs d" by simp_all
    then obtain e where "d_vector_embedding d = Some e" "similarity q d = Some (1 - cosine_distance e q)"
      by (meson where_clause_similarity)
    with d \<open>d \<in> set docs\<close>
    show "\<exists>d \<in> set docs. \<exists>e. r = select_list q d \<and> d_vector_embedding d = Some e \<and>
            m_similarity r = Some (1 - cosine_distance e q)"
      by (auto simp: select_list_def) }
  { fix i j assume "i < j \<and> j < length rs"
    with rs have ij: "i < j" "j < length xs" "j < nat cnt" by simp_all
    from ranked_descending[OF srt _ ij(1,2)] mem
    have "\<exists>x y. similarity q (xs ! i) = Some x \<and> similarity q (xs ! j) = Some y \<and> y \<le> x"
      by blast
    with ij rs
    show "\<exists>x y. m_similarity (rs ! i) = Some x \<and> m_similarity (rs ! j) = Some y \<and> y \<le> x"
      by (simp add: select_list_def) }
  { fix ts
    show "map ranking (match_documents p q thr cnt fu fs (map (with_source_created_at ts) docs)) =
               map ranking (match_documents p q thr cnt fu fs docs)"
      by (rule match_documents_map)
         (simp_all add: where_clause_def similarity_def order_by_def select_list_def
            with_source_created_at_def) }
qed

text \<open>
  Three documents of similarity 0.6, 1 and 0 in scan order, and a threshold of 0.5: the two that pass come in descending order.
\<close>

theorem match_documents_order_witness:
  "well_formed_search axis1 [doc_mid, doc_old, doc_orth] \<and>
   match_documents SeqScan axis1 (1/2) 10 None None [doc_mid, doc_old, doc_orth] =
     [Inr [select_list axis1 doc_old, select_list axis1 doc_mid]] \<and>
   m_similarity (select_list axis1 doc_old) = Some 1 \<and>
   m_similarity (select_list axis1 doc_mid) = Some (3/5) \<and>
   (\<exists>x y. m_similarity (select_list axis1 doc_old) = Some x \<and>
          m_similarity (select_list axis1 doc_mid) = Some y \<and> y \<le> x)"
proof -
  let ?rs = "[select_list axis1 doc_old, select_list axis1 doc_mid]"
  have wf: "well_formed_search axis1 [doc_mid, doc_old, doc_orth]"
    by (rule well_formed_tables)
  have h: "Inr ?rs \<in> set (match_documents SeqScan axis1 (1/2) 10 None None [doc_mid, doc_old, doc_orth])"
    by (simp add: match_documents_ranked_rows)
  from match_documents_order[OF wf h]
  have "\<forall>i j. i < j \<and> j < length ?rs \<longrightarrow>
          (\<exists>x y. m_similarity (?rs ! i) = Some x \<and> m_similarity (?rs ! j) = Some y \<and> y \<le> x)"
    by blast
  then have "0 < (1::nat) \<and> 1 < length ?rs \<longrightarrow>
          (\<exists>x y. m_similarity (?rs ! 0) = Some x \<and> m_similarity (?rs ! 1) = Some y \<and> y \<le> x)"
    by blast
  then have "\<exists>x y. m_similarity (select_list axis1 doc_old) = Some x \<and>
          m_similarity (select_list axis1 doc_mid) = Some y \<and> y \<le> x"
    by simp
  moreover have "m_similarity (select_list axis1 doc_old) = Some 1"
    "m_similarity (select_list axis1 doc_mid) = Some (3/5)"
    by (simp_all add: select_list_def similarity_examples)
  ultimately show ?thesis using wf match_documents_ranked_rows by blast
qed

text \<open>
  Claim C2 as stated fails. Two documents have the same similarity, and the query may return the older one first. The same holds with the two timestamps exchanged and the rows in the other order, so whichever of the two positions the executor puts first, one of the two tables has its older document returned first.
\<close>

theorem match_documents_tie_counterexample:
  "well_formed_search axis1 [doc_old, doc_new] \<and>
   Inr [select_list axis1 doc_old, select_list axis1 doc_new] \<in>
     set (match_documents SeqScan axis1 0 10 None None [doc_old, doc_new]) \<and>
   m_similarity (select_list axis1 doc_old) = Some 1 \<and>
   m_similarity (select_list axis1 doc_new) = Some 1 \<and>
   m_source_created_at (select_list axis1 doc_old) = Some 100 \<and>
   m_source_created_at (select_list axis1 doc_new) = Some 200 \<and>
   well_formed_search axis1 [doc_old_late, doc_new_early] \<and>
   Inr [select_list axis1 doc_new_early, select_list axis1 doc_old_late] \<in>
     set (match_documents SeqScan axis1 0 10 None None [doc_old_late, doc_new_early]) \<and>
   m_similarity (select_list axis1 doc_new_early) = Some 1 \<and>
   m_similarity (select_list axis1 doc_old_late) = Some 1 \<and>
   m_source_created_at (select_list axis1 doc_new_early) = Some 100 \<and>
   m_source_created_at (select_list axis1 doc_old_late) = Some 200 \<and>
   m_id (select_list axis1 doc_old) = 1 \<and> m_id (select_list axis1 doc_old_late) = 1 \<and>
   m_id (select_list axis1 doc_new) = 2 \<and> m_id (select_list axis1 doc_new_early) = 2"
proof -
  have "m_source_created_at (select_list axis1 doc_old) = Some 100"
    "m_source_created_at (select_list axis1 doc_new) = Some 200"
    "m_source_created_at (select_list axis1 doc_new_early) = Some 100"
    "m_source_created_at (select_list axis1 doc_old_late) = Some 200"
    "m_id (select_list axis1 doc_old) = 1" "m_id (select_list axis1 doc_old_late) = 1"
    "m_id (select_list axis1 doc_new) = 2" "m_id (select_list axis1 doc_new_early) = 2"
    by (simp_all add: select_list_def doc_old_def doc_new_def doc_old_late_def doc_new_early_def)
  moreover have "m_similarity (select_list axis1 doc_old) = Some 1"
    "m_similarity (select_list axis1 doc_new) = Some 1"
    "m_similarity (select_list axis1 doc_new_early) = Some 1"
    "m_similarity (select_list axis1 doc_old_late) = Some 1"
    by (simp_all add: select_list_def similarity_examples)
  ultimately show ?thesis
    by (simp add: match_documents_tied_rows well_formed_tables)
qed

text \<open>
  Claim C3, amended. On a well-formed search, under either plan, the query returns at most \<open>match_count\<close> rows, and every returned row is a stored document with a non-null embedding that passes the filters and whose similarity is strictly greater than the threshold. Under a sequential scan every such document is returned, unless the result already holds \<open>match_count\<close> rows that are all at least as similar; an index scan may miss rows.
\<close>

theorem match_documents_threshold:
  assumes "well_formed_search q docs"
    and "Inr rs \<in> set (match_documents p q thr cnt fu fs docs)"
  shows "length rs \<le> nat cnt \<and>
     (\<forall>r \<in> set rs. \<exists>d \<in> set docs. \<exists>e. r = select_list q d \<and> d_vector_embedding d = Some e \<and>
         thr < 1 - cosine_distance e q \<and>
         (fu = None \<or> Some (d_user_id d) = fu) \<and> (fs = None \<or> Some (d_source d) = fs)) \<and>
     (p = SeqScan \<longrightarrow>
       (\<forall>d \<in> set docs. \<forall>e. d_vector_embedding d = Some e \<and> thr < 1 - cosine_distance e q \<and>
         (fu = None \<or> Some (d_user_id d) = fu) \<and> (fs = None \<or> Some (d_source d) = fs) \<longrightarrow>
         select_list q d \<in> set rs \<or>
         (length rs = nat cnt \<and>
          (\<forall>r \<in> set rs. \<exists>y. m_similarity r = Some y \<and> 1 - cosine_distance e q \<le> y))))"
proof (intro conjI ballI allI impI)
  from assms(2) obtain xs where
    xs: "xs \<in> set (fetch p q (filter (where_clause q thr fu fs) docs))"
    and rs: "rs = map (select_list q) (take (nat cnt) xs)"
    unfolding match_documents_Inr by blast
  from fetch_sound(1,2)[OF xs] have srt: "sorted (map (order_by q) xs)"
    and mem: "\<And>d. d \<in> set xs \<Longrightarrow> d \<in> set docs \<and> where_clause q thr fu fs d"
    by auto
  show "length rs \<le> nat cnt" by (simp add: rs)
  { fix r assume "r \<in> set rs"
    with rs obtain d where d: "d \<in> set (take (nat cnt) xs)" "r = select_list q d" by auto
    from d(1) have "d \<in> set xs" by (rule in_set_takeD)
    with mem have "d \<in> set docs" "where_clause q thr fu fs d" by simp_all
    with d(2) show "\<exists>d \<in> set docs. \<exists>e. r = select_list q d \<and> d_vector_embedding d = Some e \<and>
         thr < 1 - cosine_distance e q \<and>
         (fu = None \<or> Some (d_user_id d) = fu) \<and> (fs = None \<or> Some (d_source d) = fs)"
      unfolding where_clause_iff by blast }
  { fix d e
    assume seq: "p = SeqScan" and d: "d \<in> set docs"
      and q: "d_vector_embedding d = Some e \<and> thr < 1 - cosine_distance e q \<and>
         (fu = None \<or> Some (d_user_id d) = fu) \<and> (fs = None \<or> Some (d_source d) = fs)"
    then have w: "where_clause q thr fu fs d" unfolding where_clause_iff by blast
    from fetch_sound(3)[OF xs seq] d w have dx: "d \<in> set xs" by simp
    from q have sim: "similarity q d = Some (1 - cosine_distance e q)"
      by (simp add: similarity_def)
    show "select_list q d \<in> set rs \<or>
         (length rs = nat cnt \<and>
          (\<forall>r \<in> set rs. \<exists>y. m_similarity r = Some y \<and> 1 - cosine_distance e q \<le> y))"
    proof (cases "d \<in> set (take (nat cnt) xs)")
      case True
      then show ?thesis by (simp add: rs)
    next
      case False
      from dx False have len: "length (take (nat cnt) xs) = nat cnt" by (rule take_missing)
      have "\<exists>y. m_similarity r = Some y \<and> 1 - cosine_distance e q \<le> y" if "r \<in> set rs" for r
      proof -
        from that rs obtain c where c: "c \<in> set (take (nat cnt) xs)" "r = select_list q c" by auto
        from ranked_top[OF srt _ dx False c(1)] mem
        have "\<exists>x y. similarity q d = Some x \<and> similarity q c = Some y \<and> x \<le> y" by blast
        with sim c(2) show ?thesis by (auto simp: select_list_def)
      qed
      with len show ?thesis by (simp add: rs)
    qed }
qed

text \<open>
  With a limit of one row the document of similarity 1 is returned and the one of similarity 0.6 is cut.
\<close>

theorem match_documents_threshold_witness:
  "well_formed_search axis1 [doc_mid, doc_old, doc_orth] \<and>
   match_documents SeqScan axis1 (1/2) 1 None None [doc_mid, doc_old, doc_orth] =
     [Inr [select_list axis1 doc_old]] \<and>
   length [select_list axis1 doc_old] \<le> nat 1 \<and>
   doc_mid \<in> set [doc_mid, doc_old, doc_orth] \<and> d_vector_embedding doc_mid = Some vec34 \<and>
   1/2 < 1 - cosine_distance vec34 axis1 \<and>
   (select_list axis1 doc_mid \<in> set [select_list axis1 doc_old] \<or>
     length [select_list axis1 doc_old] = nat 1 \<and>
     (\<exists>y. m_similarity (select_list axis1 doc_old) = Some y \<and> 1 - cosine_distance vec34 axis1 \<le> y))"
proof -
  let ?docs = "[doc_mid, doc_old, doc_orth]"
  let ?rs = "[select_list axis1 doc_old]"
  have wf: "well_formed_search axis1 ?docs" by (rule well_formed_tables)
  have h: "Inr ?rs \<in> set (match_documents SeqScan axis1 (1/2) 1 None None ?docs)"
    by (simp add: match_documents_first_row)
  have m: "doc_mid \<in> set ?docs" by simp
  have e: "d_vector_embedding doc_mid = Some vec34" by (simp add: doc_mid_def)
  have t: "(1/2::real) < 1 - cosine_distance vec34 axis1" by (simp add: cosine_distance_vec34)
  from match_documents_threshold[OF wf h] have
    "\<forall>d \<in> set ?docs. \<forall>e. d_vector_embedding d = Some e \<and> 1/2 < 1 - cosine_distance e axis1 \<and>
         ((None::string option) = None \<or> Some (d_user_id d) = None) \<and>
         ((None::string option) = None \<or> Some (d_source d) = None) \<longrightarrow>
         select_list axis1 d \<in> set ?rs \<or>
         (length ?rs = nat 1 \<and>
          (\<forall>r \<in> set ?rs. \<exists>y. m_similarity r = Some y \<and> 1 - cosine_distance e axis1 \<le> y))"
    and l: "length ?rs \<le> nat 1"
    by blast+
  with m e t have "select_list axis1 doc_mid \<in> set ?rs \<or>
         (length ?rs = nat 1 \<and>
          (\<forall>r \<in> set ?rs. \<exists>y. m_similarity r = Some y \<and> 1 - cosine_distance vec34 axis1 \<le> y))"
    by blast
  then have "select_list axis1 doc_mid \<in> set ?rs \<or>
         (length ?rs = nat 1 \<and>
          (\<exists>y. m_similarity (select_list axis1 doc_old) = Some y \<and> 1 - cosine_distance vec34 axis1 \<le> y))"
    by simp
  with wf match_documents_first_row l m e t show ?thesis by blast
qed

text \<open>
  Claim C3 as stated fails: a document whose similarity equals the threshold is not returned, under either plan.
\<close>

theorem match_documents_threshold_counterexample:
  "well_formed_search axis1 [doc_orth] \<and>
   match_documents SeqScan axis1 0 10 None None [doc_orth] = [Inr []] \<and>
   match_documents IndexScan axis1 0 10 None None [doc_orth] = [Inr []] \<and>
   d_vector_embedding doc_orth = Some axis2 \<and>
   1 - cosine_distance axis2 axis1 = 0"
proof -
  have "d_vector_embedding doc_orth = Some axis2" by (simp add: doc_orth_def)
  then show ?thesis
    by (simp add: match_documents_at_threshold well_formed_tables cosine_distance_axis21)
qed

text \<open>
  Claim C10. On a well-formed search, under either plan: a user filter that is supplied restricts every returned row to that user, and a source filter to that source. With \<open>filter_user_id\<close> NULL the users play no part: handing the documents to other users changes none of the rankings the query may return; likewise for \<open>filter_source\<close> NULL and the sources. Under a sequential scan with \<open>filter_user_id\<close> NULL, a document of any user that passes the source filter and the threshold is returned, unless the result already holds \<open>match_count\<close> rows that are all at least as similar; likewise for \<open>filter_source\<close> NULL.
\<close>

theorem match_documents_absent_filters:
  assumes "well_formed_search q docs"
    and "Inr rs \<in> set (match_documents p q thr cnt fu fs docs)"
  shows "(\<forall>u. fu = Some u \<longrightarrow> (\<forall>r \<in> set rs. m_user_id r = u)) \<and>
         (\<forall>s. fs = Some s \<longrightarrow> (\<forall>r \<in> set rs. m_source r = s)) \<and>
         (fu = None \<longrightarrow>
            (\<forall>owner. map ranking (match_documents p q thr cnt fu fs (map (with_user_id owner) docs)) =
                      map ranking (match_documents p q thr cnt fu fs docs))) \<and>
         (fs = None \<longrightarrow>
            (\<forall>src. map ranking (match_documents p q thr cnt fu fs (map (with_source src) docs)) =
                    map ranking (match_documents p q thr cnt fu fs docs))) \<and>
         (p = SeqScan \<and> fu = None \<longrightarrow>
            (\<forall>d \<in> set docs. \<forall>e. d_vector_embedding d = Some e \<and> thr < 1 - cosine_distance e q \<and>
                (fs = None \<or> Some (d_source d) = fs) \<longrightarrow>
                select_list q d \<in> set rs \<or>
                (length rs = nat cnt \<and>
                 (\<forall>r \<in> set rs. \<exists>y. m_similarity r = Some y \<and> 1 - cosine_distance e q \<le> y)))) \<and>
         (p = SeqScan \<and> fs = None \<longrightarrow>
            (\<forall>d \<in> set docs. \<forall>e. d_vector_embedding d = Some e \<and> thr < 1 - cosine_distance e q \<and>
                (fu = None \<or> Some (d_user_id d) = fu) \<longrightarrow>
                select_list q d \<in> set rs \<or>
                (length rs = nat cnt \<and>
                 (\<forall>r \<in> set rs. \<exists>y. m_similarity r = Some y \<and> 1 - cosine_distance e q \<le> y))))"
proof -
  from assms(2) obtain xs where
    xs: "xs \<in> set (fetch p q (filter (where_clause q thr fu fs) docs))"
    and rs: "rs = map (select_list q) (take (nat cnt) xs)"
    unfolding match_documents_Inr by blast
  from fetch_sound(1,2)[OF xs] have srt: "sorted (map (order_by q) xs)"
    and mem: "\<And>d. d \<in> set xs \<Longrightarrow> d \<in> set docs \<and> where_clause q thr fu fs d"
    by auto
  have row: "\<exists>d. r = select_list q d \<and> where_clause q thr fu fs d" if "r \<in> set rs" for r
  proof -
    from that rs obtain d where d: "d \<in> set (take (nat cnt) xs)" "r = select_list q d" by auto
    from d(1) have "d \<in> set xs" by (rule in_set_takeD)
    with mem d(2) show ?thesis by blast
  qed
  have a: "\<forall>u. fu = Some u \<longrightarrow> (\<forall>r \<in> set rs. m_user_id r = u)"
  proof (intro allI impI ballI)
    fix u r assume "fu = Some u" "r \<in> set rs"
    with row obtain d where "r = select_list q d" "where_clause q thr (Some u) fs d" by blast
    then show "m_user_id r = u" by (simp add: where_clause_iff select_list_def)
  qed
  have b: "\<forall>s. fs = Some s \<longrightarrow> (\<forall>r \<in> set rs. m_source r = s)"
  proof (intro allI impI ballI)
    fix s r assume "fs = Some s" "r \<in> set rs"
    with row obtain d where "r = select_list q d" "where_clause q thr fu (Some s) d" by blast
    then show "m_source r = s" by (simp add: where_clause_iff select_list_def)
  qed
  have c: "fu = None \<longrightarrow>
            (\<forall>owner. map ranking (match_documents p q thr cnt fu fs (map (with_user_id owner) docs)) =
                      map ranking (match_documents p q thr cnt fu fs docs))"
  proof (intro impI allI)
    fix owner assume "fu = None"
    then show "map ranking (match_documents p q thr cnt fu fs (map (with_user_id owner) docs)) =
                      map ranking (match_documents p q thr cnt fu fs docs)"
      by (intro match_documents_map)
         (simp_all add: where_clause_def similarity_def order_by_def select_list_def with_user_id_def)
  qed
  have d: "fs = None \<longrightarrow>
            (\<forall>src. map ranking (match_documents p q thr cnt fu fs (map (with_source src) docs)) =
                    map ranking (match_documents p q thr cnt fu fs docs))"
  proof (intro impI allI)
    fix src assume "fs = None"
    then show "map ranking (match_documents p q thr cnt fu fs (map (with_source src) docs)) =
                    map ranking (match_documents p q thr cnt fu fs docs)"
      by (intro match_documents_map)
         (simp_all add: where_clause_def similarity_def order_by_def select_list_def with_source_def)
  qed
  have top: "select_list q d \<in> set rs \<or>
                (length rs = nat cnt \<and>
                 (\<forall>r \<in> set rs. \<exists>y. m_similarity r = Some y \<and> 1 - cosine_distance e q \<le> y))"
    if seq: "p = SeqScan" and dd: "d \<in> set docs" and w: "where_clause q thr fu fs d"
      and e: "d_vector_embedding d = Some e" for d e
  proof (cases "d \<in> set (take (nat cnt) xs)")
    case True
    then show ?thesis by (simp add: rs)
  next
    case False
    from fetch_sound(3)[OF xs seq] dd w have dx: "d \<in> set xs" by simp
    from e have sim: "similarity q d = Some (1 - cosine_distance e q)"
      by (simp add: similarity_def)
    from dx False have len: "length (take (nat cnt) xs) = nat cnt" by (rule take_missing)
    have "\<exists>y. m_similarity r = Some y \<and> 1 - cosine_distance e q \<le> y" if "r \<in> set rs" for r
    proof -
      from that rs obtain c where c: "c \<in> set (take (nat cnt) xs)" "r = select_list q c" by auto
      from ranked_top[OF srt _ dx False c(1)] mem
      have "\<exists>x y. similarity q d = Some x \<and> similarity q c = Some y \<and> x \<le> y" by blast
      with sim c(2) show ?thesis by (auto simp: select_list_def)
    qed
    with len show ?thesis by (simp add: rs)
  qed
  have e: "p = SeqScan \<and> fu = None \<longrightarrow>
            (\<forall>d \<in> set docs. \<forall>e. d_vector_embedding d = Some e \<and> thr < 1 - cosine_distance e q \<and>
                (fs = None \<or> Some (d_source d) = fs) \<longrightarrow>
                select_list q d \<in> set rs \<or>
                (length rs = nat cnt \<and>
                 (\<forall>r \<in> set rs. \<exists>y. m_similarity r = Some y \<and> 1 - cosine_distance e q \<le> y)))"
    using top by (simp add: where_clause_iff)
  have f: "p = SeqScan \<and> fs = None \<longrightarrow>
            (\<forall>d \<in> set docs. \<forall>e. d_vector_embedding d = Some e \<and> thr < 1 - cosine_distance e q \<and>
                (fu = None \<or> Some (d_user_id d) = fu) \<longrightarrow>
                select_list q d \<in> set rs \<or>
                (length rs = nat cnt \<and>
                 (\<forall>r \<in> set rs. \<exists>y. m_similarity r = Some y \<and> 1 - cosine_distance e q \<le> y)))"
    using top by (simp add: where_clause_iff)
  from a b c d e f show ?thesis by blast
qed

text \<open>
  Without filters the documents of two users and two sources are both returned; with a user filter only that user's; and with every document handed to a third user the ranking is the same.
\<close>

theorem match_documents_absent_filters_witness:
  "well_formed_search axis1 [doc_mid, doc_old, doc_orth] \<and>
   match_documents SeqScan axis1 (1/2) 10 None None [doc_mid, doc_old, doc_orth] =
     [Inr [select_list axis1 doc_old, select_list axis1 doc_mid]] \<and>
   m_user_id (select_list axis1 doc_old) = ''alice'' \<and>
   m_user_id (select_list axis1 doc_mid) = ''bob'' \<and>
   m_source (select_list axis1 doc_old) = ''gmail'' \<and>
   m_source (select_list axis1 doc_mid) = ''slack'' \<and>
   match_documents SeqScan axis1 (1/2) 10 (Some ''alice'') None [doc_mid, doc_old, doc_orth] =
     [Inr [select_list axis1 doc_old]] \<and>
   map ranking (match_documents SeqScan axis1 (1/2) 10 None None
          (map (with_user_id carol) [doc_mid, doc_old, doc_orth])) =
     [Inr [(1, Some 1), (4, Some (3/5))]]"
proof -
  let ?docs = "[doc_mid, doc_old, doc_orth]"
  have wf: "well_formed_search axis1 ?docs" by (rule well_formed_tables)
  have h: "Inr [select_list axis1 doc_old, select_list axis1 doc_mid] \<in>
      set (match_documents SeqScan axis1 (1/2) 10 None None ?docs)"
    by (simp add: match_documents_ranked_rows)
  have ha: "Inr [select_list axis1 doc_old] \<in>
      set (match_documents SeqScan axis1 (1/2) 10 (Some ''alice'') None ?docs)"
    by (simp add: match_documents_alice_rows)
  from match_documents_absent_filters[OF wf ha]
  have "\<forall>r \<in> set [select_list axis1 doc_old]. m_user_id r = ''alice''" by blast
  then have u1: "m_user_id (select_list axis1 doc_old) = ''alice''" by simp
  from match_documents_absent_filters[OF wf h]
  have "map ranking (match_documents SeqScan axis1 (1/2) 10 None None (map (with_user_id carol) ?docs)) =
        map ranking (match_documents SeqScan axis1 (1/2) 10 None None ?docs)"
    by blast
  also have "\<dots> = [Inr [(1, Some 1), (4, Some (3/5))]]"
  proof -
    have "d_id doc_old = 1" "d_id doc_mid = 4" by (simp_all add: doc_old_def doc_mid_def)
    then show ?thesis
      by (simp add: match_documents_ranked_rows ranking_def select_list_def similarity_examples)
  qed
  finally have rk: "map ranking (match_documents SeqScan axis1 (1/2) 10 None None
          (map (with_user_id carol) ?docs)) = [Inr [(1, Some 1), (4, Some (3/5))]]" .
  have "m_user_id (select_list axis1 doc_mid) = ''bob''"
    "m_source (select_list axis1 doc_old) = ''gmail''"
    "m_source (select_list axis1 doc_mid) = ''slack''"
    by (simp_all add: select_list_def owner_examples)
  with wf u1 rk match_documents_ranked_rows match_documents_alice_rows show ?thesis by blast
qed

section \<open>The update trigger and the ledger\<close>

text \<open>
  Claim C9. An \<open>UPDATE\<close> of \<open>documents\<close> that succeeds leaves every row it selects with \<open>updated_at\<close> equal to the current time, whatever the \<open>SET\<close> clause assigns; the stored row is otherwise the row the \<open>SET\<close> clause produced, and rows that are not selected, and the links, stay as they were.
\<close>

theorem update_documents_updated_at:
  assumes "update_documents now cond set_clause s = Inr s'"
  shows "length (documents s') = length (documents s) \<and>
         document_entities s' = document_entities s \<and>
         (\<forall>i < length (documents s).
            if cond (documents s ! i)
            then d_updated_at (documents s' ! i) = Some now \<and>
                 documents s' ! i = (set_clause (documents s ! i))\<lparr>d_updated_at := Some now\<rparr>
            else documents s' ! i = documents s ! i)"
proof -
  let ?ds = "map (\<lambda>d. if cond d then update_updated_at_column now (set_clause d) else d) (documents s)"
  from assms have "s' = s\<lparr>documents := ?ds\<rparr>"
    by (simp add: update_documents_def Let_def split: if_splits)
  then show ?thesis by (simp add: update_updated_at_column_def)
qed

text \<open>
  An embedding backfill of one document stamps that row and leaves the other.
\<close>

theorem update_documents_updated_at_witness:
  "backfill_embedding 999 1 axis2 two_docs =
     Inr \<lparr> documents = [doc_old\<lparr>d_updated_at := Some 999, d_vector_embedding := Some axis2\<rparr>, doc_orth],
           document_entities = [] \<rparr> \<and>
   d_updated_at ([doc_old\<lparr>d_updated_at := Some 999, d_vector_embedding := Some axis2\<rparr>, doc_orth] ! 0) = Some 999 \<and>
   [doc_old\<lparr>d_updated_at := Some 999, d_vector_embedding := Some axis2\<rparr>, doc_orth] ! 1 = doc_orth"
proof -
  let ?s' = "\<lparr> documents = [doc_old\<lparr>d_updated_at := Some 999, d_vector_embedding := Some axis2\<rparr>, doc_orth],
           document_entities = [] \<rparr>"
  have h: "update_documents 999 (\<lambda>d. d_id d = 1) (\<lambda>d. d\<lparr>d_vector_embedding := Some axis2\<rparr>) two_docs = Inr ?s'"
    by (simp add: update_documents_def update_updated_at_column_def two_docs_def
        unique_source_document_def doc_old_def doc_orth_def)
  from update_documents_updated_at[OF h]
  have "\<forall>i < length (documents two_docs).
            if d_id (documents two_docs ! i) = 1
            then d_updated_at (documents ?s' ! i) = Some 999 \<and>
                 documents ?s' ! i = (documents two_docs ! i)\<lparr>d_vector_embedding := Some axis2, d_updated_at := Some 999\<rparr>
            else documents ?s' ! i = documents two_docs ! i"
    by blast
  then have "d_updated_at (documents ?s' ! 0) = Some 999 \<and> documents ?s' ! 1 = documents two_docs ! 1"
    by (simp add: two_docs_def doc_old_def doc_orth_def)
  with h show ?thesis by (simp add: backfill_embedding_def two_docs_def)
qed

lemma fold_max_start: "b \<le> fold max us (b::nat)"
proof (induction us arbitrary: b)
  case Nil show ?case by simp
next
  case (Cons a us)
  have "b \<le> max a b" by simp
  also have "\<dots> \<le> fold max us (max a b)" by (rule Cons.IH)
  finally show ?case by simp
qed

lemma fold_max_ge: "x \<in> set used \<Longrightarrow> x \<le> fold max used (a::nat)"
proof (induction used arbitrary: a)
  case Nil then show ?case by simp
next
  case (Cons u us)
  show ?case
  proof (cases "x = u")
    case True
    have "u \<le> max u a" by simp
    also have "\<dots> \<le> fold max us (max u a)" by (rule fold_max_start)
    finally show ?thesis using True by simp
  next
    case False with Cons show ?thesis by simp
  qed
qed

lemma gen_random_uuid_fresh: "gen_random_uuid used \<notin> set used"
proof
  assume "gen_random_uuid used \<in> set used"
  then have "gen_random_uuid used \<le> fold max used 0" by (rule fold_max_ge)
  then show False by (simp add: gen_random_uuid_def)
qed

lemma filter_key_single:
  "distinct (map f xs) \<Longrightarrow> k \<in> set (map f xs) \<Longrightarrow> \<exists>x. filter (\<lambda>y. f y = k) xs = [x]"
proof (induction xs)
  case Nil then show ?case by simp
next
  case (Cons a xs)
  show ?case
  proof (cases "f a = k")
    case True
    with Cons.prems have "k \<notin> f ` set xs" by simp
    then have "filter (\<lambda>y. f y = k) xs = []" by (auto simp: filter_empty_conv)
    with True show ?thesis by simp
  next
    case False
    with Cons show ?thesis by auto
  qed
qed

lemma mark_step:
  "mark_episode_as_processed now src sid uid ep t =
     (if (uid, src, sid) \<in> set (map unique_episode t) then (AlreadyClaimed, t)
      else (Claimed, t @ [\<lparr> pe_id = gen_random_uuid (map pe_id t), pe_user_id = uid,
                   pe_source = src, pe_source_id = sid,
                   pe_episode_uuid = ep, pe_processed_at = Some now \<rparr>]))"
  by (simp add: mark_episode_as_processed_def insert_processed_episode_def unique_episode_def Let_def)

lemma mark_distinct:
  "distinct (map unique_episode t) \<Longrightarrow>
   distinct (map unique_episode (snd (mark_episode_as_processed now src sid uid ep t)))"
  by (simp add: mark_step) (simp add: unique_episode_def)

lemma mark_all_distinct:
  "distinct (map unique_episode t) \<Longrightarrow> distinct (map unique_episode (mark_all calls t))"
proof (induction calls arbitrary: t)
  case Nil then show ?case by simp
next
  case (Cons c cs)
  obtain now src sid uid ep where c: "c = (now, src, sid, uid, ep)" by (cases c) auto
  from Cons show ?case unfolding c by (simp add: mark_distinct)
qed

text \<open>
  Claim C4. No two records of \<open>processed_episodes\<close> share (user\_id, source, source\_id): the ledger built by any sequence of \<open>markProcessed\<close> calls has distinct triples, and one more call keeps them distinct. For a triple that exists the insert hits the unique constraint, and \<open>markProcessed\<close> answers "already claimed" and leaves the ledger as it was; for a new triple it appends one record.
\<close>

theorem mark_episode_as_processed_unique:
  "distinct (map unique_episode (mark_all calls [])) \<and>
   (distinct (map unique_episode t) \<longrightarrow>
      distinct (map unique_episode (snd (mark_episode_as_processed now src sid uid ep t)))) \<and>
   ((uid, src, sid) \<in> set (map unique_episode t) \<longrightarrow>
      insert_processed_episode now uid src sid ep t = Inl UniqueViolation \<and>
      mark_episode_as_processed now src sid uid ep t = (AlreadyClaimed, t)) \<and>
   ((uid, src, sid) \<notin> set (map unique_episode t) \<longrightarrow>
      (\<exists>r. mark_episode_as_processed now src sid uid ep t = (Claimed, t @ [r]) \<and>
           unique_episode r = (uid, src, sid) \<and> pe_episode_uuid r = ep))"
proof (intro conjI impI)
  show "distinct (map unique_episode (mark_all calls []))"
    by (rule mark_all_distinct) simp
  show "distinct (map unique_episode (snd (mark_episode_as_processed now src sid uid ep t)))"
    if "distinct (map unique_episode t)" using that by (rule mark_distinct)
  show "insert_processed_episode now uid src sid ep t = Inl UniqueViolation"
    if "(uid, src, sid) \<in> set (map unique_episode t)"
    using that by (simp add: insert_processed_episode_def unique_episode_def Let_def)
  show "mark_episode_as_processed now src sid uid ep t = (AlreadyClaimed, t)"
    if "(uid, src, sid) \<in> set (map unique_episode t)"
    using that by (simp add: mark_step)
  show "\<exists>r. mark_episode_as_processed now src sid uid ep t = (Claimed, t @ [r]) \<and>
           unique_episode r = (uid, src, sid) \<and> pe_episode_uuid r = ep"
    if "(uid, src, sid) \<notin> set (map unique_episode t)"
    using that by (simp add: mark_step unique_episode_def)
qed

text \<open>
  A second claim of a stored triple, and a first claim of a new one.
\<close>

theorem mark_episode_as_processed_unique_witness:
  "distinct (map unique_episode [ledger_row]) \<and>
   (''alice'', ''gmail'', ''m1'') \<in> set (map unique_episode [ledger_row]) \<and>
   mark_episode_as_processed 20 ''gmail'' ''m1'' ''alice'' (Some 8) [ledger_row] = (AlreadyClaimed, [ledger_row]) \<and>
   (''alice'', ''gmail'', ''m2'') \<notin> set (map unique_episode [ledger_row]) \<and>
   length (snd (mark_episode_as_processed 20 ''gmail'' ''m2'' ''alice'' (Some 8) [ledger_row])) = 2 \<and>
   distinct (map unique_episode (snd (mark_episode_as_processed 20 ''gmail'' ''m2'' ''alice'' (Some 8) [ledger_row])))"
proof -
  have d: "distinct (map unique_episode [ledger_row])" by simp
  have k1: "(''alice'', ''gmail'', ''m1'') \<in> set (map unique_episode [ledger_row])"
    by (simp add: unique_episode_def ledger_row_def)
  have k2: "(''alice'', ''gmail'', ''m2'') \<notin> set (map unique_episode [ledger_row])"
    by (simp add: unique_episode_def ledger_row_def)
  from mark_episode_as_processed_unique[of "[]" "[ledger_row]" 20 "''gmail''" "''m1''" "''alice''" "Some 8"] k1
  have a: "mark_episode_as_processed 20 ''gmail'' ''m1'' ''alice'' (Some 8) [ledger_row] = (AlreadyClaimed, [ledger_row])"
    by blast
  from mark_episode_as_processed_unique[of "[]" "[ledger_row]" 20 "''gmail''" "''m2''" "''alice''" "Some 8"] k2 d
  have b: "\<exists>r. mark_episode_as_processed 20 ''gmail'' ''m2'' ''alice'' (Some 8) [ledger_row] = (Claimed, [ledger_row] @ [r])"
    and c: "distinct (map unique_episode (snd (mark_episode_as_processed 20 ''gmail'' ''m2'' ''alice'' (Some 8) [ledger_row])))"
    by blast+
  from b have "length (snd (mark_episode_as_processed 20 ''gmail'' ''m2'' ''alice'' (Some 8) [ledger_row])) = 2"
    by auto
  with d k1 k2 a c show ?thesis by blast
qed

section \<open>Storing documents\<close>

lemma store_step:
  "store now doc t =
     (if unique_source_document doc \<in> set (map unique_source_document t)
      then (Inl DuplicateDocumentError, t)
      else (Inr (gen_random_uuid (map d_id t)),
            t @ [doc\<lparr>d_id := gen_random_uuid (map d_id t),
                      d_created_at := Some now, d_updated_at := Some now\<rparr>]))"
  by (simp add: store_def insert_document_def unique_source_document_def Let_def)

lemma store_key_present:
  "unique_source_document doc \<in> set (map unique_source_document (snd (store now doc t)))"
  by (simp add: store_step) (simp add: unique_source_document_def)

lemma store_distinct:
  "distinct (map unique_source_document t) \<Longrightarrow>
   distinct (map unique_source_document (snd (store now doc t)))"
  by (simp add: store_step) (simp add: unique_source_document_def)

text \<open>
  Claim C5. On a table whose (source, source\_id, user\_id) triples are distinct, two \<open>store\<close> calls with the same triple leave exactly one row for it. The second call hits the unique constraint, is answered with \<open>DuplicateDocumentError\<close> as a value, and leaves the table, and so the row stored first, unchanged. When the triple is new the first call stores the document.
\<close>

theorem store_duplicate:
  assumes inv: "distinct (map unique_source_document t)"
    and same: "unique_source_document d2 = unique_source_document d1"
    and s1: "store now1 d1 t = (r1, t1)"
    and s2: "store now2 d2 t1 = (r2, t2)"
  shows "r2 = Inl DuplicateDocumentError \<and> t2 = t1 \<and>
         insert_document now2 d2 t1 = Inl UniqueViolation \<and>
         (\<exists>row. filter (\<lambda>d. unique_source_document d = unique_source_document d1) t2 = [row]) \<and>
         distinct (map unique_source_document t2) \<and>
         (unique_source_document d1 \<notin> set (map unique_source_document t) \<longrightarrow>
            (\<exists>i. r1 = Inr i \<and>
                 t1 = t @ [d1\<lparr>d_id := i, d_created_at := Some now1, d_updated_at := Some now1\<rparr>]))"
proof -
  from s1 have t1: "t1 = snd (store now1 d1 t)" by simp
  have present: "unique_source_document d2 \<in> set (map unique_source_document t1)"
    unfolding t1 same by (rule store_key_present)
  have d1: "distinct (map unique_source_document t1)"
    unfolding t1 using inv by (rule store_distinct)
  from s2 present have r2: "r2 = Inl DuplicateDocumentError" and t2: "t2 = t1"
    by (simp_all add: store_step)
  from present have v: "insert_document now2 d2 t1 = Inl UniqueViolation"
    by (simp add: insert_document_def unique_source_document_def Let_def)
  from d1 present have one: "\<exists>row. filter (\<lambda>d. unique_source_document d = unique_source_document d1) t2 = [row]"
    unfolding t2 same by (rule filter_key_single)
  have fresh: "unique_source_document d1 \<notin> set (map unique_source_document t) \<longrightarrow>
            (\<exists>i. r1 = Inr i \<and>
                 t1 = t @ [d1\<lparr>d_id := i, d_created_at := Some now1, d_updated_at := Some now1\<rparr>])"
    using s1 by (auto simp: store_step)
  from r2 t2 v one d1 fresh show ?thesis by simp
qed

lemma gen_random_uuid_Nil: "gen_random_uuid [] = 1"
  by (simp add: gen_random_uuid_def)

text \<open>
  A mail stored on an empty table and stored again with another body.
\<close>

theorem store_duplicate_witness:
  "distinct (map unique_source_document []) \<and>
   unique_source_document mail_a_retry = unique_source_document mail_a \<and>
   store 5 mail_a [] = (Inr 1, [mail_a\<lparr>d_id := 1, d_created_at := Some 5, d_updated_at := Some 5\<rparr>]) \<and>
   store 6 mail_a_retry [mail_a\<lparr>d_id := 1, d_created_at := Some 5, d_updated_at := Some 5\<rparr>] =
     (Inl DuplicateDocumentError, [mail_a\<lparr>d_id := 1, d_created_at := Some 5, d_updated_at := Some 5\<rparr>])"
proof -
  let ?t1 = "[mail_a\<lparr>d_id := 1, d_created_at := Some 5, d_updated_at := Some 5\<rparr>]"
  have inv: "distinct (map unique_source_document [])" by simp
  have same: "unique_source_document mail_a_retry = unique_source_document mail_a"
    by (simp add: unique_source_document_def mail_a_retry_def)
  have s1: "store 5 mail_a [] = (Inr 1, ?t1)"
    by (simp add: store_step gen_random_uuid_Nil)
  obtain r2 t2 where s2: "store 6 mail_a_retry ?t1 = (r2, t2)" by (cases "store 6 mail_a_retry ?t1")
  from store_duplicate[OF inv same s1 s2] have "r2 = Inl DuplicateDocumentError" "t2 = ?t1"
    by blast+
  with inv same s1 s2 show ?thesis by simp
qed

section \<open>Linking documents to entities\<close>

lemma link_rejects:
  "r < 0 \<or> 1 < r \<or> c < 1 \<Longrightarrow> link now i e t n c r s = Inl InvariantViolation"
  by (auto simp: link_def)

lemma link_existing:
  assumes "(i, e) \<in> set (map unique_document_entity (document_entities s))"
    and "link now i e t n c r s = Inr s'"
  shows "s' = s\<lparr>document_entities :=
                 map (\<lambda>l. if unique_document_entity l = (i, e) then merged c r l else l)
                     (document_entities s)\<rparr>"
    and "0 \<le> r" "r \<le> 1" "1 \<le> c"
  using assms by (auto simp: link_def merged_def split: if_splits)

lemma link_new:
  assumes "(i, e) \<notin> set (map unique_document_entity (document_entities s))"
    and "link now i e t n c r s = Inr s'"
  shows "s' = s\<lparr>document_entities := document_entities s @ [link_row now i e t n c r s]\<rparr>"
    and "i \<in> set (map d_id (documents s))" and "0 \<le> r" "r \<le> 1" "1 \<le> c"
  using assms
  by (auto simp: link_def insert_document_entity_def Let_def link_row_def unique_document_entity_def
      split: if_splits)

lemma merged_key [simp]: "unique_document_entity (merged c r l) = unique_document_entity l"
  by (simp add: merged_def unique_document_entity_def)

lemma map_merged_keys:
  "map unique_document_entity (map (\<lambda>l. if unique_document_entity l = k then merged c r l else l) ls) =
   map unique_document_entity ls"
  by (induction ls) simp_all

lemma link_keys:
  assumes "link now i e t n c r s = Inr s'"
  shows "map unique_document_entity (document_entities s') =
     (if (i, e) \<in> set (map unique_document_entity (document_entities s))
      then map unique_document_entity (document_entities s)
      else map unique_document_entity (document_entities s) @ [(i, e)])"
proof (cases "(i, e) \<in> set (map unique_document_entity (document_entities s))")
  case True
  from link_existing(1)[OF True assms] True show ?thesis by (simp add: map_merged_keys)
next
  case False
  from link_new(1)[OF False assms] False show ?thesis
    by (simp add: link_row_def unique_document_entity_def)
qed

lemma link_distinct:
  "distinct (map unique_document_entity (document_entities s)) \<Longrightarrow> link now i e t n c r s = Inr s' \<Longrightarrow>
   distinct (map unique_document_entity (document_entities s'))"
  by (simp add: link_keys split: if_splits)

lemma filter_map_merged:
  "filter (\<lambda>l. unique_document_entity l = k)
      (map (\<lambda>l. if unique_document_entity l = k then merged c r l else l) ls) =
   map (merged c r) (filter (\<lambda>l. unique_document_entity l = k) ls)"
  by (induction ls) simp_all

lemma link_merges:
  assumes d: "distinct (map unique_document_entity (document_entities s))"
    and l0: "l0 \<in> set (document_entities s)" "unique_document_entity l0 = (i, e)"
    and lk: "link now i e t n c r s = Inr s'"
  shows "filter (\<lambda>l. unique_document_entity l = (i, e)) (document_entities s') = [merged c r l0]"
proof -
  from l0 have mem: "(i, e) \<in> set (map unique_document_entity (document_entities s))" by force
  from filter_key_single[OF d mem] obtain x where
    x: "filter (\<lambda>l. unique_document_entity l = (i, e)) (document_entities s) = [x]" by blast
  from l0 have "l0 \<in> set (filter (\<lambda>l. unique_document_entity l = (i, e)) (document_entities s))"
    by simp
  with x have "x = l0" by simp
  with x link_existing(1)[OF mem lk] show ?thesis by (simp add: filter_map_merged)
qed

text \<open>
  Claim C6. On a table whose (document\_id, entity\_uuid) pairs are distinct and that holds no link for the pair, two successful \<open>link\<close> calls for the pair leave exactly one link for it, with the larger of the two mention counts and the larger of the two relevance scores; the pairs stay distinct and the table has grown by one row.
\<close>

theorem link_merge:
  assumes d: "distinct (map unique_document_entity (document_entities s))"
    and new: "(i, e) \<notin> set (map unique_document_entity (document_entities s))"
    and k1: "link now1 i e t1 n1 c1 r1 s = Inr s1"
    and k2: "link now2 i e t2 n2 c2 r2 s1 = Inr s2"
  shows "(\<exists>l. filter (\<lambda>l. unique_document_entity l = (i, e)) (document_entities s2) = [l] \<and>
              de_mention_count l = Some (max c1 c2) \<and>
              de_relevance_score l = Some (max r1 r2)) \<and>
         distinct (map unique_document_entity (document_entities s2)) \<and>
         length (document_entities s2) = Suc (length (document_entities s))"
proof -
  let ?row = "link_row now1 i e t1 n1 c1 r1 s"
  from link_new(1)[OF new k1] have s1: "document_entities s1 = document_entities s @ [?row]"
    by simp
  have d1: "distinct (map unique_document_entity (document_entities s1))"
    using d k1 by (rule link_distinct)
  have row: "?row \<in> set (document_entities s1)" "unique_document_entity ?row = (i, e)"
    by (simp_all add: s1 link_row_def unique_document_entity_def)
  from link_merges[OF d1 row k2]
  have f: "filter (\<lambda>l. unique_document_entity l = (i, e)) (document_entities s2) = [merged c2 r2 ?row]" .
  have v: "de_mention_count (merged c2 r2 ?row) = Some (max c1 c2)"
    "de_relevance_score (merged c2 r2 ?row) = Some (max r1 r2)"
    by (simp_all add: merged_def link_row_def merge_max_def)
  have d2: "distinct (map unique_document_entity (document_entities s2))"
    using d1 k2 by (rule link_distinct)
  from row have "(i, e) \<in> set (map unique_document_entity (document_entities s1))" by force
  from link_existing(1)[OF this k2] have "length (document_entities s2) = length (document_entities s1)"
    by simp
  with s1 have len: "length (document_entities s2) = Suc (length (document_entities s))" by simp
  from f v d2 len show ?thesis by simp
qed

lemma link_first: "link 10 1 ''acme'' ''Company'' ''Acme Corp'' 1 (4/10) one_doc =
     Inr \<lparr> documents = [doc_old], document_entities = [acme_link 1 (4/10)] \<rparr>"
  by (simp add: link_def insert_document_entity_def one_doc_def doc_old_def acme_link_def gen_random_uuid_Nil)

lemma link_second: "link 11 1 ''acme'' ''Company'' ''Acme Corp'' 3 (9/10)
       \<lparr> documents = [doc_old], document_entities = [acme_link 1 (4/10)] \<rparr> =
     Inr \<lparr> documents = [doc_old], document_entities = [acme_link 3 (9/10)] \<rparr>"
  by (simp add: link_def unique_document_entity_def acme_link_def merge_max_def)

text \<open>
  The example of the spec: counts 1 and 3 with relevance 0.4 and 0.9 give one link with count 3 and relevance 0.9.
\<close>

theorem link_merge_witness:
  "distinct (map unique_document_entity (document_entities one_doc)) \<and>
   (1, ''acme'') \<notin> set (map unique_document_entity (document_entities one_doc)) \<and>
   link 10 1 ''acme'' ''Company'' ''Acme Corp'' 1 (4/10) one_doc =
     Inr \<lparr> documents = [doc_old], document_entities = [acme_link 1 (4/10)] \<rparr> \<and>
   link 11 1 ''acme'' ''Company'' ''Acme Corp'' 3 (9/10)
       \<lparr> documents = [doc_old], document_entities = [acme_link 1 (4/10)] \<rparr> =
     Inr \<lparr> documents = [doc_old], document_entities = [acme_link 3 (9/10)] \<rparr> \<and>
   (\<exists>l. filter (\<lambda>l. unique_document_entity l = (1, ''acme'')) [acme_link 3 (9/10)] = [l] \<and>
        de_mention_count l = Some 3 \<and> de_relevance_score l = Some (9/10))"
proof -
  have d: "distinct (map unique_document_entity (document_entities one_doc))"
    and n: "(1, ''acme'') \<notin> set (map unique_document_entity (document_entities one_doc))"
    by (simp_all add: one_doc_def)
  from link_merge[OF d n link_first link_second]
  have "\<exists>l. filter (\<lambda>l. unique_document_entity l = (1, ''acme'')) [acme_link 3 (9/10)] = [l] \<and>
        de_mention_count l = Some (max 1 3) \<and> de_relevance_score l = Some (max (4/10) (9/10))"
    by simp
  then have "\<exists>l. filter (\<lambda>l. unique_document_entity l = (1, ''acme'')) [acme_link 3 (9/10)] = [l] \<and>
        de_mention_count l = Some 3 \<and> de_relevance_score l = Some (9/10)"
    by simp
  with d n link_first link_second show ?thesis by blast
qed

section \<open>The range of a stored link\<close>

lemma fold_apply_op_invariant:
  assumes "P s" and "\<And>x s. P s \<Longrightarrow> P (apply_op x s)"
  shows "P (fold apply_op ops s)"
  using assms(1)
proof (induction ops arbitrary: s)
  case Nil then show ?case by simp
next
  case (Cons x xs)
  from Cons.prems have "P (apply_op x s)" by (rule assms(2))
  then have "P (fold apply_op xs (apply_op x s))" by (rule Cons.IH)
  then show ?case by simp
qed

lemma update_documents_Inr:
  assumes "update_documents now cond set_clause s = Inr s'"
  shows "document_entities s' = document_entities s"
    and "\<forall>l \<in> set (document_entities s). de_document_id l \<in> set (map d_id (documents s'))"
proof -
  let ?ds = "map (\<lambda>d. if cond d then update_updated_at_column now (set_clause d) else d) (documents s)"
  from assms have s': "s' = s\<lparr>documents := ?ds\<rparr>"
    and fk: "\<not> (\<exists>l \<in> set (document_entities s). de_document_id l \<notin> set (map d_id ?ds))"
    by (simp_all add: update_documents_def Let_def split: if_splits)
  from s' show "document_entities s' = document_entities s" by simp
  from fk s' show "\<forall>l \<in> set (document_entities s). de_document_id l \<in> set (map d_id (documents s'))"
    by simp
qed

lemma merged_range: "link_in_range l \<Longrightarrow> 0 \<le> r \<Longrightarrow> r \<le> 1 \<Longrightarrow> 1 \<le> c \<Longrightarrow> link_in_range (merged c r l)"
  by (auto simp: link_in_range_def merged_def merge_max_def split: option.splits)

lemma merged_document_id [simp]: "de_document_id (merged c r l) = de_document_id l"
  by (simp add: merged_def)

lemma link_range:
  assumes inv: "list_all link_in_range (document_entities s)"
    and lk: "link now i e t n c r s = Inr s'"
  shows "list_all link_in_range (document_entities s')"
proof (cases "(i, e) \<in> set (map unique_document_entity (document_entities s))")
  case True
  from link_existing[OF True lk] inv show ?thesis
    by (auto simp: list_all_iff merged_range)
next
  case False
  from link_new[OF False lk] inv show ?thesis
    by (simp add: link_in_range_def link_row_def)
qed

lemma apply_op_range:
  assumes "list_all link_in_range (document_entities s)"
  shows "list_all link_in_range (document_entities (apply_op x s))"
proof (cases x)
  case (Store now doc)
  with assms show ?thesis by simp
next
  case (BackfillEmbedding now i v)
  with assms show ?thesis
    by (auto simp: backfill_embedding_def split: sum.splits dest: update_documents_Inr(1))
next
  case (Link now i e t n c r)
  with assms show ?thesis by (auto split: sum.splits dest: link_range)
next
  case (DeleteDocument i)
  with assms show ?thesis by (simp add: delete_documents_def list_all_iff)
qed

text \<open>
  Claim C7. Every link stored by a sequence of store, backfill, link and delete operations on empty tables has a relevance score in [0,1] and a mention count of at least 1, and each operation keeps this true. A \<open>link\<close> call with a relevance score outside [0,1] is rejected, and the tables are as they were before the call.
\<close>

theorem link_relevance_range:
  "list_all link_in_range (document_entities (fold apply_op ops empty_db)) \<and>
   (list_all link_in_range (document_entities s) \<longrightarrow>
      list_all link_in_range (document_entities (apply_op x s))) \<and>
   (r < 0 \<or> 1 < r \<longrightarrow>
      link now i e t n c r s = Inl InvariantViolation \<and> apply_op (Link now i e t n c r) s = s)"
proof (intro conjI impI)
  show "list_all link_in_range (document_entities (fold apply_op ops empty_db))"
    by (rule fold_apply_op_invariant[where P = "\<lambda>s. list_all link_in_range (document_entities s)"])
       (simp_all add: empty_db_def apply_op_range)
  show "list_all link_in_range (document_entities (apply_op x s))"
    if "list_all link_in_range (document_entities s)" using that by (rule apply_op_range)
  assume "r < 0 \<or> 1 < r"
  then have "r < 0 \<or> 1 < r \<or> c < 1" by blast
  then show "link now i e t n c r s = Inl InvariantViolation" by (rule link_rejects)
  then show "apply_op (Link now i e t n c r) s = s" by simp
qed

text \<open>
  A link in range is merged; a link with relevance 1.5 is rejected and nothing is written.
\<close>

theorem link_relevance_range_witness:
  "list_all link_in_range (document_entities linked_doc) \<and>
   list_all link_in_range
     (document_entities (apply_op (Link 11 1 ''acme'' ''Company'' ''Acme Corp'' 3 (9/10)) linked_doc)) \<and>
   ((3/2 :: real) < 0 \<or> 1 < (3/2 :: real)) \<and>
   link 12 1 ''globex'' ''Company'' ''Globex'' 1 (3/2) linked_doc = Inl InvariantViolation \<and>
   apply_op (Link 12 1 ''globex'' ''Company'' ''Globex'' 1 (3/2)) linked_doc = linked_doc"
proof -
  have a: "list_all link_in_range (document_entities linked_doc)"
    by (simp add: linked_doc_def link_in_range_def acme_link_def)
  have b: "(3/2 :: real) < 0 \<or> 1 < (3/2 :: real)" by simp
  from link_relevance_range[of "[]" linked_doc "Link 11 1 ''acme'' ''Company'' ''Acme Corp'' 3 (9/10)"
      "3/2" 12 1 "''globex''" "''Company''" "''Globex''" 1] a b
  show ?thesis by blast
qed

section \<open>Deleting documents\<close>

lemma references_ok_iff:
  "references_ok s \<longleftrightarrow> (\<forall>l \<in> set (document_entities s). de_document_id l \<in> d_id ` set (documents s))"
  by (simp add: references_ok_def list_all_iff)

lemma store_ids: "d_id ` set t \<subseteq> d_id ` set (snd (store now doc t))"
  by (auto simp: store_step)

lemma delete_documents_by_id:
  "documents (delete_documents (\<lambda>d. d_id d = i) s) = filter (\<lambda>d. d_id d \<noteq> i) (documents s)"
  "references_ok s \<Longrightarrow>
     document_entities (delete_documents (\<lambda>d. d_id d = i) s) =
       filter (\<lambda>l. de_document_id l \<noteq> i) (document_entities s)"
proof -
  show "documents (delete_documents (\<lambda>d. d_id d = i) s) = filter (\<lambda>d. d_id d \<noteq> i) (documents s)"
    by (simp add: delete_documents_def)
  assume ok: "references_ok s"
  have "de_document_id l \<notin> set (map d_id (filter (\<lambda>d. d_id d = i) (documents s))) \<longleftrightarrow> de_document_id l \<noteq> i"
    if "l \<in> set (document_entities s)" for l
    using ok that by (auto simp: references_ok_iff)
  then show "document_entities (delete_documents (\<lambda>d. d_id d = i) s) =
       filter (\<lambda>l. de_document_id l \<noteq> i) (document_entities s)"
    by (simp add: delete_documents_def cong: filter_cong)
qed

lemma delete_documents_references:
  "references_ok s \<Longrightarrow> references_ok (delete_documents cond s)"
  by (auto simp: references_ok_iff delete_documents_def)

lemma link_references:
  assumes ok: "references_ok s" and lk: "link now i e t n c r s = Inr s'"
  shows "references_ok s'"
proof (cases "(i, e) \<in> set (map unique_document_entity (document_entities s))")
  case True
  from link_existing(1)[OF True lk] ok show ?thesis
    by (auto simp: references_ok_iff)
next
  case False
  from link_new(1,2)[OF False lk] ok show ?thesis
    by (auto simp: references_ok_iff link_row_def)
qed

lemma apply_op_references:
  assumes "references_ok s"
  shows "references_ok (apply_op x s)"
proof (cases x)
  case (Store now doc)
  with assms store_ids[of "documents s" now doc] show ?thesis
    by (auto simp: references_ok_iff)
next
  case (BackfillEmbedding now i v)
  show ?thesis
  proof (cases "backfill_embedding now i v s")
    case (Inl err)
    with BackfillEmbedding assms show ?thesis by simp
  next
    case (Inr s')
    then have "update_documents now (\<lambda>d. d_id d = i) (\<lambda>d. d\<lparr>d_vector_embedding := Some v\<rparr>) s = Inr s'"
      by (simp add: backfill_embedding_def)
    from update_documents_Inr[OF this] have "references_ok s'"
      by (simp add: references_ok_iff)
    with BackfillEmbedding Inr show ?thesis by simp
  qed
next
  case (Link now i e t n c r)
  with assms show ?thesis by (auto split: sum.splits dest: link_references)
next
  case (DeleteDocument i)
  with assms show ?thesis by (simp add: delete_documents_references)
qed

lemma apply_op_keeps_links:
  assumes "\<not> is_delete x"
  shows "set (map unique_document_entity (document_entities s)) \<subseteq>
         set (map unique_document_entity (document_entities (apply_op x s)))"
proof (cases x)
  case (Store now doc)
  then show ?thesis by simp
next
  case (BackfillEmbedding now i v)
  then show ?thesis
    by (auto simp: backfill_embedding_def split: sum.splits dest: update_documents_Inr(1))
next
  case (Link now i e t n c r)
  show ?thesis
  proof (cases "link now i e t n c r s")
    case (Inl err)
    with Link show ?thesis by simp
  next
    case (Inr s')
    from link_keys[OF Inr] Link Inr show ?thesis by (auto split: if_splits)
  qed
next
  case (DeleteDocument i)
  with assms show ?thesis by (simp add: is_delete_def)
qed

text \<open>
  Claim C8. After any sequence of store, backfill, link and delete operations on empty tables every link references a stored document, and each operation, and any \<open>DELETE\<close> on \<open>documents\<close>, keeps this true. Deleting a document removes the document and exactly the links whose \<open>document_id\<close> references it. An operation other than a delete removes no link: every (document\_id, entity\_uuid) pair present before it is present after it.
\<close>

theorem delete_cascade:
  "references_ok (fold apply_op ops empty_db) \<and>
   (references_ok s \<longrightarrow>
      references_ok (apply_op x s) \<and>
      references_ok (delete_documents cond s) \<and>
      documents (apply_op (DeleteDocument i) s) = filter (\<lambda>d. d_id d \<noteq> i) (documents s) \<and>
      document_entities (apply_op (DeleteDocument i) s) =
        filter (\<lambda>l. de_document_id l \<noteq> i) (document_entities s)) \<and>
   (\<not> is_delete x \<longrightarrow>
      set (map unique_document_entity (document_entities s)) \<subseteq>
      set (map unique_document_entity (document_entities (apply_op x s))))"
proof (intro conjI impI)
  have "references_ok empty_db" by (simp add: empty_db_def references_ok_def)
  then show "references_ok (fold apply_op ops empty_db)"
    by (rule fold_apply_op_invariant) (rule apply_op_references)
  show "set (map unique_document_entity (document_entities s)) \<subseteq>
      set (map unique_document_entity (document_entities (apply_op x s)))" if "\<not> is_delete x"
    using that by (rule apply_op_keeps_links)
  assume ok: "references_ok s"
  then show "references_ok (apply_op x s)" by (rule apply_op_references)
  from ok show "references_ok (delete_documents cond s)" by (rule delete_documents_references)
  show "documents (apply_op (DeleteDocument i) s) = filter (\<lambda>d. d_id d \<noteq> i) (documents s)"
    by (simp add: delete_documents_by_id(1))
  from ok show "document_entities (apply_op (DeleteDocument i) s) =
        filter (\<lambda>l. de_document_id l \<noteq> i) (document_entities s)"
    by (simp add: delete_documents_by_id(2))
qed

text \<open>
  Deleting one of two linked documents removes its link and keeps the other; a backfill keeps both links.
\<close>

theorem delete_cascade_witness:
  "references_ok two_linked_docs \<and>
   apply_op (DeleteDocument 1) two_linked_docs =
     \<lparr> documents = [doc_orth], document_entities = [orth_link] \<rparr> \<and>
   references_ok (apply_op (DeleteDocument 1) two_linked_docs) \<and>
   \<not> is_delete (BackfillEmbedding 999 1 axis2) \<and>
   set (map unique_document_entity (document_entities two_linked_docs)) \<subseteq>
     set (map unique_document_entity
            (document_entities (apply_op (BackfillEmbedding 999 1 axis2) two_linked_docs)))"
proof -
  have ok: "references_ok two_linked_docs"
    by (simp add: references_ok_def two_linked_docs_def doc_old_def doc_orth_def acme_link_def orth_link_def)
  have nd: "\<not> is_delete (BackfillEmbedding 999 1 axis2)" by (simp add: is_delete_def)
  have ev: "apply_op (DeleteDocument 1) two_linked_docs =
     \<lparr> documents = [doc_orth], document_entities = [orth_link] \<rparr>"
    by (simp add: delete_documents_def two_linked_docs_def doc_old_def doc_orth_def acme_link_def orth_link_def)
  from delete_cascade[of "[]" two_linked_docs "DeleteDocument 1" "\<lambda>d. d_id d = 1" 1] ok
  have a: "references_ok (apply_op (DeleteDocument 1) two_linked_docs)" by blast
  from delete_cascade[of "[]" two_linked_docs "BackfillEmbedding 999 1 axis2" "\<lambda>d. d_id d = 1" 1] nd
  have b: "set (map unique_document_entity (document_entities two_linked_docs)) \<subseteq>
     set (map unique_document_entity
            (document_entities (apply_op (BackfillEmbedding 999 1 axis2) two_linked_docs)))"
    by blast
  from ok ev a nd b show ?thesis by blast
qed

section \<open>Retried and concurrent deliveries\<close>

lemma mark_has:
  "has_episode_been_processed src sid uid (snd (mark_episode_as_processed now src sid uid ep t))"
  by (simp add: has_episode_been_processed_def mark_step) (simp add: unique_episode_def)

lemma gmail_webhook_has:
  "has_episode_been_processed ''gmail'' (e_message_id ev) (e_user_id ev)
     (s_processed_episodes (snd (gmail_webhook now ev s)))"
  by (simp add: gmail_webhook_def Let_def mark_has)

lemma gmail_webhook_duplicate:
  "has_episode_been_processed ''gmail'' (e_message_id ev) (e_user_id ev) (s_processed_episodes s) \<Longrightarrow>
   gmail_webhook now ev s = (AlreadyProcessed, s)"
  by (simp add: gmail_webhook_def)

lemma deliver_duplicate:
  "has_episode_been_processed ''gmail'' (e_message_id ev) (e_user_id ev) (s_processed_episodes s) \<Longrightarrow>
   deliver now ev n s = s"
  by (induction n) (simp_all add: gmail_webhook_duplicate)

text \<open>
  Deliveries handled one after the other: every delivery after the first finds the triple in the ledger and changes nothing.
\<close>

lemma deliver_once: "deliver now ev (Suc n) s = snd (gmail_webhook now ev s)"
  by (simp add: deliver_duplicate gmail_webhook_has)

text \<open>
  Run alone, the three awaited calls of a request amount to the handler.
\<close>

lemma gmail_webhook_steps:
  "run_schedule now [0, 0, 0] ([(ev, AtCheck)], s) =
     ([(ev, Returned (fst (gmail_webhook now ev s)))], snd (gmail_webhook now ev s))"
  by (simp add: gmail_webhook_def Let_def)

text \<open>
  A new event delivered any number of times in sequence costs one extraction call and leaves one ledger record and one document for its triple.
\<close>

lemma deliver_sequential:
  assumes "\<not> has_episode_been_processed ''gmail'' (e_message_id ev) (e_user_id ev) (s_processed_episodes s)"
    and "distinct (map unique_episode (s_processed_episodes s))"
    and "distinct (map unique_source_document (s_documents s))"
  shows "s_extraction_calls (deliver now ev (Suc n) s) = Suc (s_extraction_calls s)"
    and "\<exists>r. filter (\<lambda>r. unique_episode r = (e_user_id ev, ''gmail'', e_message_id ev))
              (s_processed_episodes (deliver now ev (Suc n) s)) = [r]"
    and "\<exists>d. filter (\<lambda>d. unique_source_document d = (''gmail'', e_message_id ev, e_user_id ev))
              (s_documents (deliver now ev (Suc n) s)) = [d]"
proof -
  let ?s' = "snd (gmail_webhook now ev s)"
  from assms(1) show "s_extraction_calls (deliver now ev (Suc n) s) = Suc (s_extraction_calls s)"
    unfolding deliver_once by (simp add: gmail_webhook_def Let_def process_email_def)
  from assms(1) have led: "s_processed_episodes ?s' =
      snd (mark_episode_as_processed now ''gmail'' (e_message_id ev) (e_user_id ev) None (s_processed_episodes s))"
    and docs: "s_documents ?s' = snd (store now (document_of ev) (s_documents s))"
    by (simp_all add: gmail_webhook_def Let_def process_email_def)
  have "distinct (map unique_episode (s_processed_episodes ?s'))"
    unfolding led using assms(2) by (rule mark_distinct)
  moreover have "(e_user_id ev, ''gmail'', e_message_id ev) \<in> set (map unique_episode (s_processed_episodes ?s'))"
    using gmail_webhook_has[of ev now s] by (simp add: has_episode_been_processed_def)
  ultimately show "\<exists>r. filter (\<lambda>r. unique_episode r = (e_user_id ev, ''gmail'', e_message_id ev))
              (s_processed_episodes (deliver now ev (Suc n) s)) = [r]"
    unfolding deliver_once by (rule filter_key_single)
  have "distinct (map unique_source_document (s_documents ?s'))"
    unfolding docs using assms(3) by (rule store_distinct)
  moreover have "(''gmail'', e_message_id ev, e_user_id ev) \<in> set (map unique_source_document (s_documents ?s'))"
    unfolding docs using store_key_present[of "document_of ev" now "s_documents s"]
    by (simp add: unique_source_document_def document_of_def)
  ultimately show "\<exists>d. filter (\<lambda>d. unique_source_document d = (''gmail'', e_message_id ev, e_user_id ev))
              (s_documents (deliver now ev (Suc n) s)) = [d]"
    unfolding deliver_once by (rule filter_key_single)
qed

text \<open>
  Claim C1, failing input. Two deliveries of the same event interleave at the awaited calls: both pass the ledger check before either marks the event. Both run \<open>process_email\<close>, so the extraction engine is called twice, although the unique constraints keep one document and one ledger record.
\<close>

theorem gmail_webhook_race:
  "map snd (fst (run_schedule 0 [0, 1, 0, 1, 0, 1]
       ([(retry_event, AtCheck), (retry_event, AtCheck)], empty_system))) =
     [Returned Completed, Returned Completed] \<and>
   s_extraction_calls (snd (run_schedule 0 [0, 1, 0, 1, 0, 1]
       ([(retry_event, AtCheck), (retry_event, AtCheck)], empty_system))) = 2 \<and>
   length (s_documents (snd (run_schedule 0 [0, 1, 0, 1, 0, 1]
       ([(retry_event, AtCheck), (retry_event, AtCheck)], empty_system)))) = 1 \<and>
   length (s_processed_episodes (snd (run_schedule 0 [0, 1, 0, 1, 0, 1]
       ([(retry_event, AtCheck), (retry_event, AtCheck)], empty_system)))) = 1"
  by (simp add: empty_system_def has_episode_been_processed_def process_email_def store_step
      mark_step unique_source_document_def unique_episode_def document_of_def retry_event_def)

end
